theory Spec2Isabelle
  imports Complex_Main "HOL-Library.Word"
begin

unbundle bit_operations_syntax

section \<open>Data model of blend.cpp\<close>

text \<open>
  A pixel is a 32-bit unsigned word with A in bits 24-31, B in 16-23, G in 8-15 and
  R in 0-7. C++ \<open>unsigned int\<close> is \<open>32 word\<close>: \<open>+\<close>, \<open>-\<close> and \<open>*\<close> wrap modulo \<open>2^32\<close>,
  \<open>div\<close> is the unsigned division, \<open><<\<close> is \<open>push_bit\<close> and \<open>>>\<close> is \<open>drop_bit\<close>.
  C++ \<open>int\<close> is the 32-bit two's complement integer: its values are kept as \<open>int\<close>
  in \<open>[- 2^31, 2^31)\<close>, and every addition, subtraction, negation and multiplication
  of the source is followed by \<open>int32\<close>, the wrap-around modulo \<open>2^32\<close> (what a signed
  overflow, undefined in the C++ standard, does on the compiled code). A \<open>double\<close> is a
  \<open>real\<close>, and every floating-point operation is the exact operation followed by a
  rounding function \<open>rnd\<close> that the model takes as a parameter (NaN and the infinities
  are not modelled).
\<close>

type_synonym u32 = "32 word"
type_synonym byte = "8 word"

definition int32 :: "int \<Rightarrow> int" where
  "int32 i = sint (word_of_int i :: 32 word)"

text \<open>The decoder of reader.hpp, as far as blend.cpp reads it.\<close>

record ImageReader =
  reader_width :: u32
  reader_height :: u32
  reader_alpha :: bool
  reader_message :: string
  reader_warnings :: "string list"
  reader_surface :: "u32 list"

text \<open>
  \<open>struct Image\<close>: \<open>image_data\<close> stands for \<open>data\<close> together with \<open>dataLength\<close>
  (the bytes of \<open>buffer\<close>), \<open>image_reader\<close> is \<open>None\<close> for the empty \<open>auto_ptr\<close>.
\<close>

record Image =
  image_data :: "byte list"
  image_x :: int
  image_y :: int
  image_width :: int
  image_height :: int
  image_reader :: "ImageReader option"

text \<open>The palette object of palette.hpp; blend.cpp itself only asks whether it is valid.\<close>

datatype Palette = Palette (palette_valid: bool)

datatype BlendFormat = BLEND_FORMAT_PNG | BLEND_FORMAT_JPEG
datatype AlphaMode = BLEND_MODE_OCTREE | BLEND_MODE_HEXTREE
datatype EncoderType = BLEND_ENCODER_LIBPNG | BLEND_ENCODER_MINIZ

record Tinter =
  tint_h0 :: real
  tint_h1 :: real
  tint_s0 :: real
  tint_s1 :: real
  tint_l0 :: real
  tint_l1 :: real
  tint_a0 :: real
  tint_a1 :: real
  tint_identity :: bool

text \<open>
  The JavaScript values that reach the entry point. A number is a \<open>real\<close>; \<open>Function n\<close>
  is the function object with identity \<open>n\<close>; \<open>WrappedPalette\<close> is an object wrapping
  a palette; \<open>Error m\<close> is the object made by \<open>Exception::Error\<close> from the message \<open>m\<close>.
\<close>

datatype jsval =
    Undefined
  | Null
  | Boolean bool
  | Number real
  | String string
  | Buffer "byte list"
  | Array "jsval list"
  | Object "(string \<times> jsval) list"
  | Function nat
  | WrappedPalette Palette
  | Error string

record BlendBaton =
  baton_callback :: jsval
  baton_images :: "Image list"
  baton_message :: string
  baton_warnings :: "string list"
  baton_quality :: int
  baton_format :: BlendFormat
  baton_reencode :: bool
  baton_width :: int
  baton_height :: int
  baton_palette :: "Palette option"
  baton_matte :: u32
  baton_compression :: int
  baton_mode :: AlphaMode
  baton_encoder :: EncoderType
  baton_tint :: Tinter
  baton_stream :: "byte list"

text \<open>\<open>image_data_32\<close> of image_data.hpp: a width, a height and the pixel buffer.\<close>

record image_data_32 =
  data_width :: int
  data_height :: int
  data_pixels :: "u32 list"

text \<open>
  What blend.cpp calls and does not define: the decoder facade, the allocator, the
  encoders and the rounding of \<open>double\<close> arithmetic. An encoder returns \<open>Inr\<close> of the
  bytes it writes to the stream, or \<open>Inl\<close> of the \<open>what()\<close> of the exception it throws.
  \<open>malloc n\<close> returns a block of \<open>n\<close> words with unspecified contents, or \<open>None\<close>.
\<close>

record Env =
  ImageReader_create :: "byte list \<Rightarrow> ImageReader"
  ImageReader_decode :: "ImageReader \<Rightarrow> bool \<times> ImageReader"
  malloc :: "nat \<Rightarrow> u32 list option"
  save_as_jpeg :: "int \<Rightarrow> image_data_32 \<Rightarrow> string + byte list"
  save_as_png8_pal :: "image_data_32 \<Rightarrow> Palette \<Rightarrow> int \<Rightarrow> int \<Rightarrow> bool \<Rightarrow> string + byte list"
  save_as_png8_hex ::
    "image_data_32 \<Rightarrow> int \<Rightarrow> int \<Rightarrow> int \<Rightarrow> int \<Rightarrow> real \<Rightarrow> bool \<Rightarrow> string + byte list"
  save_as_png8_oct :: "image_data_32 \<Rightarrow> int \<Rightarrow> int \<Rightarrow> int \<Rightarrow> int \<Rightarrow> bool \<Rightarrow> string + byte list"
  save_as_png :: "image_data_32 \<Rightarrow> int \<Rightarrow> int \<Rightarrow> bool \<Rightarrow> bool \<Rightarrow> string + byte list"
  rnd :: "real \<Rightarrow> real"

text \<open>Constants of zlib.h and miniz.\<close>

definition Z_BEST_COMPRESSION :: int where "Z_BEST_COMPRESSION = 9"
definition Z_DEFAULT_COMPRESSION :: int where "Z_DEFAULT_COMPRESSION = - 1"
definition Z_DEFAULT_STRATEGY :: int where "Z_DEFAULT_STRATEGY = 0"
definition MZ_UBER_COMPRESSION :: int where "MZ_UBER_COMPRESSION = 10"

section \<open>hexToUInt32Color\<close>

text \<open>\<open>isxdigit\<close> and \<open>isspace\<close> of the C locale, on character codes.\<close>

definition isxdigit :: "char \<Rightarrow> bool" where
  "isxdigit c =
    (let n = (of_char c :: nat)
     in (48 \<le> n \<and> n \<le> 57) \<or> (97 \<le> n \<and> n \<le> 102) \<or> (65 \<le> n \<and> n \<le> 70))"

definition isspace :: "char \<Rightarrow> bool" where
  "isspace c = (let n = (of_char c :: nat) in n = 32 \<or> (9 \<le> n \<and> n \<le> 13))"

definition xdigit_value :: "char \<Rightarrow> nat" where
  "xdigit_value c =
    (let n = (of_char c :: nat)
     in if n \<le> 57 then n - 48 else if 97 \<le> n then n - 87 else n - 55)"

text \<open>
  \<open>ss << std::hex << hex; ss >> color;\<close> with \<open>color\<close> initialised to 0: the formatted
  extraction of an \<open>unsigned int\<close> in base 16. It skips leading white space, accepts a
  sign and a \<open>0x\<close> prefix, reads the longest run of hexadecimal digits and leaves 0
  when there is none. It is called on at most 8 characters, so the value fits 32 bits.
\<close>

definition hex_digits_value :: "string \<Rightarrow> nat" where
  "hex_digits_value ds = foldl (\<lambda>v c. 16 * v + xdigit_value c) 0 ds"

definition stream_extract_hex :: "string \<Rightarrow> u32" where
  "stream_extract_hex s =
    (let s1 = dropWhile isspace s;
         neg = (s1 \<noteq> [] \<and> hd s1 = CHR ''-'');
         s2 = (if s1 \<noteq> [] \<and> (hd s1 = CHR ''-'' \<or> hd s1 = CHR ''+'') then tl s1 else s1);
         s3 = (case s2 of
                 z # x # d # r \<Rightarrow>
                   if z = CHR ''0'' \<and> (x = CHR ''x'' \<or> x = CHR ''X'') \<and> isxdigit d
                   then d # r else s2
               | _ \<Rightarrow> s2);
         ds = takeWhile isxdigit s3;
         v = (of_nat (hex_digits_value ds) :: u32)
     in if ds = [] then 0 else if neg then - v else v)"

text \<open>
  \<open>hexToUInt32Color(char *hex)\<close>: \<open>None\<close> is the null pointer, \<open>Some s\<close> the characters
  before the terminating NUL. \<open>skip_hash\<close> is \<open>if (hex[0] == '#') hex++\<close>.
\<close>

definition skip_hash :: "string \<Rightarrow> string" where
  "skip_hash hex = (if hex \<noteq> [] \<and> hd hex = CHR ''#'' then tl hex else hex)"

definition hexToUInt32Color :: "string option \<Rightarrow> u32" where
  "hexToUInt32Color hex =
    (case hex of
       None \<Rightarrow> 0
     | Some h0 \<Rightarrow>
        let h = skip_hash h0;
            len = length h
        in if len \<noteq> 6 \<and> len \<noteq> 8 then 0
           else
             let color = stream_extract_hex h
             in if len = 8 then
                  push_bit 24 color OR push_bit 8 (color AND 0xFF00)
                    OR drop_bit 8 (color AND 0xFF0000) OR drop_bit 24 (color AND 0xFF000000)
                else
                  0xFF000000 OR push_bit 16 (color AND 0xFF) OR (color AND 0xFF00)
                    OR drop_bit 16 (color AND 0xFF0000))"

text \<open>
  The ARGB word of section 3 of the specification with the channels \<open>a\<close>, \<open>r\<close>, \<open>g\<close>,
  \<open>b\<close>, and the value of the two hexadecimal digits at offset \<open>i\<close> of a string.
\<close>

definition pack_argb :: "nat \<Rightarrow> nat \<Rightarrow> nat \<Rightarrow> nat \<Rightarrow> u32" where
  "pack_argb a r g b =
    push_bit 24 (of_nat a) OR push_bit 16 (of_nat b) OR push_bit 8 (of_nat g) OR of_nat r"

definition hex_pair :: "nat \<Rightarrow> string \<Rightarrow> nat" where
  "hex_pair i h = hex_digits_value (take 2 (drop i h))"

section \<open>rgb2hsl, hueToRGB, hsl2rgb\<close>

text \<open>
  \<open>static_cast<unsigned>(d)\<close> truncates towards zero (it is undefined in C++ when the
  truncated value is not an \<open>unsigned\<close>). \<open>fmod\<close> is exact: it is not rounded.
\<close>

definition trunc :: "real \<Rightarrow> int" where
  "trunc d = (if 0 \<le> d then \<lfloor>d\<rfloor> else \<lceil>d\<rceil>)"

definition to_unsigned :: "real \<Rightarrow> u32" where
  "to_unsigned d = word_of_int (trunc d)"

definition fmod :: "real \<Rightarrow> real \<Rightarrow> real" where
  "fmod a b = a - b * of_int (trunc (a / b))"

definition rgb2hsl :: "(real \<Rightarrow> real) \<Rightarrow> u32 \<Rightarrow> u32 \<Rightarrow> u32 \<Rightarrow> real \<times> real \<times> real" where
  "rgb2hsl rd red green blue =
    (let r = rd (real (unat red) / 255);
         g = rd (real (unat green) / 255);
         b = rd (real (unat blue) / 255);
         mx = max r (max g b);
         mn = min r (min g b);
         delta = rd (mx - mn);
         gamma = rd (mx + mn);
         h = 0;
         s = 0;
         l = rd (gamma / 2)
     in if delta \<noteq> 0 then
          let s = (if l > 0.5 then rd (delta / rd (2 - gamma)) else rd (delta / gamma));
              h = (if mx = r \<and> mx \<noteq> g
                   then rd (rd (rd (g - b) / delta) + (if g < b then 6 else 0)) else h);
              h = (if mx = g \<and> mx \<noteq> b then rd (rd (rd (b - r) / delta) + 2) else h);
              h = (if mx = b \<and> mx \<noteq> r then rd (rd (rd (r - g) / delta) + 4) else h);
              h = rd (h / 6)
          in (h, s, l)
        else (h, s, l))"

definition hueToRGB :: "(real \<Rightarrow> real) \<Rightarrow> real \<Rightarrow> real \<Rightarrow> real \<Rightarrow> real" where
  "hueToRGB rd m1 m2 h0 =
    (let h = fmod (rd (h0 + 1)) 1
     in if rd (h * 6) < 1 then rd (m1 + rd (rd (rd (m2 - m1) * h) * 6))
        else if rd (h * 2) < 1 then m2
        else if rd (h * 3) < 2 then rd (m1 + rd (rd (rd (m2 - m1) * rd (rd 0.66666 - h)) * 6))
        else m1)"

text \<open>
  \<open>hsl2rgb\<close> writes through the references \<open>r\<close>, \<open>g\<close>, \<open>b\<close>: the model takes their
  incoming values and returns the outgoing ones. The \<open>if (!s)\<close> block has no \<open>return\<close>.
\<close>

definition hsl2rgb ::
  "(real \<Rightarrow> real) \<Rightarrow> real \<Rightarrow> real \<Rightarrow> real \<Rightarrow> u32 \<times> u32 \<times> u32 \<Rightarrow> u32 \<times> u32 \<times> u32" where
  "hsl2rgb rd h s l rgb =
    (let rgb = (if s = 0
                then (to_unsigned (rd (l * 255)), to_unsigned (rd (l * 255)),
                      to_unsigned (rd (l * 255)))
                else rgb);
         m2 = (if l \<le> 0.5 then rd (l * rd (s + 1)) else rd (rd (l + s) - rd (l * s)));
         m1 = rd (rd (l * 2) - m2);
         r = to_unsigned (rd (hueToRGB rd m1 m2 (rd (h + rd 0.33333)) * 255));
         g = to_unsigned (rd (hueToRGB rd m1 m2 h * 255));
         b = to_unsigned (rd (hueToRGB rd m1 m2 (rd (h - rd 0.33333)) * 255))
     in (r, g, b))"

text \<open>A rounding to \<open>p\<close> binary places, to run the model on concrete numbers.\<close>

definition round_to :: "nat \<Rightarrow> real \<Rightarrow> real" where
  "round_to p d = of_int \<lfloor>d * 2 ^ p + 1 / 2\<rfloor> / 2 ^ p"

section \<open>Blend_CompositePixel and Blend_Composite\<close>

definition Blend_CompositePixel :: "u32 \<Rightarrow> u32 \<Rightarrow> u32" where
  "Blend_CompositePixel target source =
    (if source \<le> 0x00FFFFFF then target
     else if source \<ge> 0xFF000000 \<or> target \<le> 0x00FFFFFF then source
     else
       let a1 = (drop_bit 24 source) AND 0xff;
           r1 = source AND 0xff;
           g1 = (drop_bit 8 source) AND 0xff;
           b1 = (drop_bit 16 source) AND 0xff;
           a0 = (drop_bit 24 target) AND 0xff;
           r0 = (target AND 0xff) * a0;
           g0 = ((drop_bit 8 target) AND 0xff) * a0;
           b0 = ((drop_bit 16 target) AND 0xff) * a0;
           a0 = push_bit 8 (a1 + a0) - a0 * a1;
           r0 = ((push_bit 8 r1 - r0) * a1 + push_bit 8 r0) div a0;
           g0 = ((push_bit 8 g1 - g0) * a1 + push_bit 8 g0) div a0;
           b0 = ((push_bit 8 b1 - b0) * a1 + push_bit 8 b0) div a0;
           a0 = drop_bit 8 a0
       in push_bit 24 a0 OR push_bit 16 b0 OR push_bit 8 g0 OR r0)"

text \<open>The alpha byte of a pixel, bits 24-31.\<close>

definition alpha_byte :: "u32 \<Rightarrow> nat" where
  "alpha_byte p = unat (drop_bit 24 p AND 0xff)"

text \<open>
  The blend of section 4.3.4 of the specification in exact integers, written as the
  specification words it: no operation wraps, \<open>div\<close> is the division of \<open>int\<close>.
\<close>

definition exact_alpha :: "int \<Rightarrow> int \<Rightarrow> int" where
  "exact_alpha a1 a0 = push_bit 8 (a1 + a0) - a0 * a1"

definition exact_numerator :: "int \<Rightarrow> int \<Rightarrow> int \<Rightarrow> int" where
  "exact_numerator c1 c0 a1 = (push_bit 8 c1 - c0) * a1 + push_bit 8 c0"

definition composite_exact :: "int \<Rightarrow> int \<Rightarrow> int" where
  "composite_exact T S =
    (let a1 = drop_bit 24 S mod 256;
         r1 = S mod 256;
         g1 = drop_bit 8 S mod 256;
         b1 = drop_bit 16 S mod 256;
         a0 = drop_bit 24 T mod 256;
         r0 = (T mod 256) * a0;
         g0 = (drop_bit 8 T mod 256) * a0;
         b0 = (drop_bit 16 T mod 256) * a0;
         a0' = exact_alpha a1 a0;
         r0' = exact_numerator r1 r0 a1 div a0';
         g0' = exact_numerator g1 g0 a1 div a0';
         b0' = exact_numerator b1 b0 a1 div a0'
     in push_bit 24 (drop_bit 8 a0') OR push_bit 16 b0' OR push_bit 8 g0' OR r0')"

text \<open>
  The loops of \<open>Blend_Composite\<close>. The first argument counts the iterations that
  remain. The indices \<open>targetPos + x\<close> and \<open>sourcePos + x\<close> are sums of \<open>int\<close>. An
  index outside a buffer is undefined behaviour in C++: the model returns \<open>None\<close>
  there.
\<close>

fun composite_columns ::
  "nat \<Rightarrow> int \<Rightarrow> int \<Rightarrow> int \<Rightarrow> u32 list \<Rightarrow> u32 list \<Rightarrow> u32 list option" where
  "composite_columns 0 x targetPos sourcePos target source = Some target"
| "composite_columns (Suc n) x targetPos sourcePos target source =
    (if 0 \<le> int32 (targetPos + x) \<and> int32 (targetPos + x) < int (length target)
        \<and> 0 \<le> int32 (sourcePos + x) \<and> int32 (sourcePos + x) < int (length source)
     then composite_columns n (int32 (x + 1)) targetPos sourcePos
            (target[nat (int32 (targetPos + x)) :=
               Blend_CompositePixel (target ! nat (int32 (targetPos + x)))
                 (source ! nat (int32 (sourcePos + x)))])
            source
     else None)"

fun composite_rows ::
  "nat \<Rightarrow> int \<Rightarrow> int \<Rightarrow> int \<Rightarrow> int \<Rightarrow> int \<Rightarrow> u32 list \<Rightarrow> u32 list \<Rightarrow> u32 list option" where
  "composite_rows 0 width targetPos sourcePos tstride sstride target source = Some target"
| "composite_rows (Suc n) width targetPos sourcePos tstride sstride target source =
    (case composite_columns (nat width) 0 targetPos sourcePos target source of
       None \<Rightarrow> None
     | Some target' \<Rightarrow>
         composite_rows n width (int32 (targetPos + tstride)) (int32 (sourcePos + sstride))
           tstride sstride target' source)"

text \<open>The clipped rectangle of \<open>Blend_Composite\<close>, one definition per local variable.\<close>

definition sourceX :: "Image \<Rightarrow> int" where
  "sourceX img = max 0 (int32 (- image_x img))"

definition sourceY :: "Image \<Rightarrow> int" where
  "sourceY img = max 0 (int32 (- image_y img))"

definition sourcePos :: "Image \<Rightarrow> int" where
  "sourcePos img = int32 (int32 (sourceY img * image_width img) + sourceX img)"

definition blit_width :: "BlendBaton \<Rightarrow> Image \<Rightarrow> int" where
  "blit_width baton img =
    int32 (int32 (image_width img - sourceX img)
      - max 0 (int32 (int32 (image_x img + image_width img) - baton_width baton)))"

definition blit_height :: "BlendBaton \<Rightarrow> Image \<Rightarrow> int" where
  "blit_height baton img =
    int32 (int32 (image_height img - sourceY img)
      - max 0 (int32 (int32 (image_y img + image_height img) - baton_height baton)))"

definition targetX :: "Image \<Rightarrow> int" where
  "targetX img = max 0 (image_x img)"

definition targetY :: "Image \<Rightarrow> int" where
  "targetY img = max 0 (image_y img)"

definition targetPos :: "BlendBaton \<Rightarrow> Image \<Rightarrow> int" where
  "targetPos baton img = int32 (int32 (targetY img * baton_width baton) + targetX img)"

text \<open>
  \<open>Blend_Composite\<close> is called only on an image whose reader is set; on an empty
  reader the dereference is undefined and the model returns \<open>None\<close>.
\<close>

definition Blend_Composite :: "u32 list \<Rightarrow> BlendBaton \<Rightarrow> Image \<Rightarrow> u32 list option" where
  "Blend_Composite target baton img =
    (case image_reader img of
       None \<Rightarrow> None
     | Some reader \<Rightarrow>
         composite_rows (nat (blit_height baton img)) (blit_width baton img)
           (targetPos baton img) (sourcePos img) (baton_width baton) (image_width img)
           target (reader_surface reader))"

section \<open>Blend_Encode\<close>

text \<open>
  \<open>emit\<close> is the effect of one encoder call inside the \<open>try\<close> block: the bytes go to
  the stream, or the \<open>what()\<close> of the exception becomes the message of the baton.
\<close>

definition emit :: "string + byte list \<Rightarrow> BlendBaton \<Rightarrow> BlendBaton" where
  "emit r baton =
    (case r of
       Inl what \<Rightarrow> baton\<lparr>baton_message := what\<rparr>
     | Inr bytes \<Rightarrow> baton\<lparr>baton_stream := baton_stream baton @ bytes\<rparr>)"

definition Blend_Encode :: "Env \<Rightarrow> image_data_32 \<Rightarrow> BlendBaton \<Rightarrow> bool \<Rightarrow> BlendBaton" where
  "Blend_Encode env img baton alpha =
    (if baton_format baton = BLEND_FORMAT_JPEG then
       let baton = (if baton_quality baton = 0 then baton\<lparr>baton_quality := 80\<rparr> else baton)
       in emit (save_as_jpeg env (baton_quality baton) img) baton
     else
       let strategy = Z_DEFAULT_STRATEGY;
           trans_mode = - 1;
           gamma = - 1;
           use_miniz = (baton_encoder baton = BLEND_ENCODER_MINIZ)
       in if (case baton_palette baton of Some p \<Rightarrow> palette_valid p | None \<Rightarrow> False) then
            emit (save_as_png8_pal env img (the (baton_palette baton)) (baton_compression baton)
                    strategy use_miniz) baton
          else if baton_quality baton > 0 then
            if alpha \<and> baton_mode baton = BLEND_MODE_HEXTREE then
              emit (save_as_png8_hex env img (baton_quality baton) (baton_compression baton)
                      strategy trans_mode gamma use_miniz) baton
            else
              emit (save_as_png8_oct env img (baton_quality baton) (baton_compression baton)
                      strategy trans_mode use_miniz) baton
          else
            emit (save_as_png env img (baton_compression baton) strategy alpha use_miniz) baton)"

section \<open>Work_Blend\<close>

text \<open>Decimal output of \<open>operator<<\<close> for an \<open>int\<close>.\<close>

definition digit_char :: "nat \<Rightarrow> char" where
  "digit_char n = char_of (48 + n)"

fun show_nat :: "nat \<Rightarrow> string" where
  "show_nat n =
    (if n < 10 then [digit_char n] else show_nat (n div 10) @ [digit_char (n mod 10)])"

declare show_nat.simps [simp del]

definition show_int :: "int \<Rightarrow> string" where
  "show_int i = (if i < 0 then CHR ''-'' # show_nat (nat (- i)) else show_nat (nat i))"

text \<open>
  The state of the loop of \<open>Work_Blend\<close> is the baton (with its images), the flag
  \<open>alpha\<close>, the counter \<open>size\<close> (written \<open>sz\<close>), and, added by the model, the list of
  the indices of the layers on which \<open>decode()\<close> has been called. One iteration either ends the
  worker (\<open>WORKER_END\<close>) or goes on to the next layer (\<open>Continue\<close>, for \<open>continue\<close>
  as for the end of the body).
\<close>

datatype walk = WORKER_END BlendBaton "nat list" | Continue BlendBaton bool nat "nat list"

definition visibleWidth :: "ImageReader \<Rightarrow> Image \<Rightarrow> int" where
  "visibleWidth layer img = int32 (sint (reader_width layer) + image_x img)"

definition visibleHeight :: "ImageReader \<Rightarrow> Image \<Rightarrow> int" where
  "visibleHeight layer img = int32 (sint (reader_height layer) + image_y img)"

text \<open>Lines 480-481: the first layer sets the canvas size when the caller gave none.\<close>

definition seed_canvas :: "BlendBaton \<Rightarrow> ImageReader \<Rightarrow> Image \<Rightarrow> BlendBaton" where
  "seed_canvas baton layer img =
    (let baton = (if baton_width baton \<le> 0
                  then baton\<lparr>baton_width := max 0 (visibleWidth layer img)\<rparr> else baton);
         baton = (if baton_height baton \<le> 0
                  then baton\<lparr>baton_height := max 0 (visibleHeight layer img)\<rparr> else baton)
     in baton)"

text \<open>Line 484: the layer is outside of the viewport.\<close>

definition outside_viewport :: "BlendBaton \<Rightarrow> ImageReader \<Rightarrow> Image \<Rightarrow> bool" where
  "outside_viewport baton layer img =
    (visibleWidth layer img \<le> 0 \<or> visibleHeight layer img \<le> 0
      \<or> image_x img \<ge> baton_width baton \<or> image_y img \<ge> baton_height baton)"

text \<open>
  The body of the loop for the layer \<open>index\<close> (lines 467-524), entered with \<open>alpha\<close>
  true. \<open>ImageReader::create\<close> returns a reader for every input (one of width 0 and
  height 0 when the format is unknown), so the test for \<open>NULL\<close> is not modelled.
  \<open>decode()\<close> changes the reader: \<open>layer'\<close> is the reader after the call, while
  \<open>visibleWidth\<close> and \<open>visibleHeight\<close> were computed before it.
\<close>

definition Work_Blend_layer :: "Env \<Rightarrow> nat \<Rightarrow> BlendBaton \<Rightarrow> nat \<Rightarrow> nat list \<Rightarrow> walk" where
  "Work_Blend_layer env index baton sz decoded =
    (let img = baton_images baton ! index;
         layer = ImageReader_create env (image_data img)
     in if reader_width layer = 0 \<or> reader_height layer = 0 then
          WORKER_END (baton\<lparr>baton_message := reader_message layer\<rparr>) decoded
        else
          let baton = seed_canvas baton layer img
          in if outside_viewport baton layer img then Continue baton True sz decoded
             else if sz = 0 \<and> \<not> reader_alpha layer \<and> \<not> baton_reencode baton
                     \<and> image_x img = 0 \<and> image_y img = 0
                     \<and> sint (reader_width layer) = baton_width baton
                     \<and> sint (reader_height layer) = baton_height baton then
               WORKER_END (baton\<lparr>baton_stream := baton_stream baton @ image_data img\<rparr>) decoded
             else
               case ImageReader_decode env layer of
                 (ok, layer') \<Rightarrow>
                   if \<not> ok then
                     WORKER_END (baton\<lparr>baton_message := reader_message layer'\<rparr>) (index # decoded)
                   else
                     let baton = baton\<lparr>baton_warnings := baton_warnings baton
                           @ map (\<lambda>w. ''Layer '' @ show_int (int index) @ '': '' @ w)
                               (reader_warnings layer')\<rparr>;
                         coversWidth = (image_x img \<le> 0
                                          \<and> visibleWidth layer img \<ge> baton_width baton);
                         coversHeight = (image_y img \<le> 0
                                          \<and> visibleHeight layer img \<ge> baton_height baton);
                         alpha = (\<not> (\<not> reader_alpha layer' \<and> coversWidth \<and> coversHeight));
                         img = img\<lparr>image_width := sint (reader_width layer'),
                                   image_height := sint (reader_height layer'),
                                   image_reader := Some layer'\<rparr>
                     in Continue (baton\<lparr>baton_images := (baton_images baton)[index := img]\<rparr>)
                          alpha (Suc sz) (index # decoded))"

text \<open>
  The loop (lines 463-525) from the top layer down; \<open>Suc index\<close> layers remain and the
  next one is \<open>index\<close>. \<open>Continue\<close> is also the result when the loop is left.
\<close>

fun Work_Blend_walk :: "Env \<Rightarrow> nat \<Rightarrow> BlendBaton \<Rightarrow> bool \<Rightarrow> nat \<Rightarrow> nat list \<Rightarrow> walk" where
  "Work_Blend_walk env 0 baton alpha sz decoded = Continue baton alpha sz decoded"
| "Work_Blend_walk env (Suc index) baton alpha sz decoded =
    (if \<not> alpha then Continue baton alpha sz decoded
     else case Work_Blend_layer env index baton sz decoded of
            WORKER_END baton' decoded' \<Rightarrow> WORKER_END baton' decoded'
          | Continue baton' alpha' sz' decoded' \<Rightarrow>
              Work_Blend_walk env index baton' alpha' sz' decoded')"

text \<open>
  The state in which the loop started with \<open>n\<close> layers to go enters the body for the
  layer \<open>k - 1\<close> (\<open>k\<close> layers to go), if it does: \<open>None\<close> when the worker ends or the
  loop is left before.
\<close>

fun Work_Blend_reaches ::
  "Env \<Rightarrow> nat \<Rightarrow> nat \<Rightarrow> BlendBaton \<Rightarrow> bool \<Rightarrow> nat \<Rightarrow> nat list
    \<Rightarrow> (BlendBaton \<times> nat \<times> nat list) option" where
  "Work_Blend_reaches env k 0 baton alpha sz decoded = None"
| "Work_Blend_reaches env k (Suc index) baton alpha sz decoded =
    (if \<not> alpha then None
     else if Suc index = k then Some (baton, sz, decoded)
     else case Work_Blend_layer env index baton sz decoded of
            WORKER_END baton' decoded' \<Rightarrow> None
          | Continue baton' alpha' sz' decoded' \<Rightarrow>
              Work_Blend_reaches env k index baton' alpha' sz' decoded')"

text \<open>Line 528: \<open>int pixels = baton->width * baton->height\<close>, a product of \<open>int\<close>.\<close>

definition pixels :: "BlendBaton \<Rightarrow> int" where
  "pixels baton = int32 (baton_width baton * baton_height baton)"

text \<open>Lines 544-549: the matte fill, \<open>for (int i = 0; i < pixels; i++) target[i] = matte\<close>.\<close>

fun matte_fill :: "nat \<Rightarrow> nat \<Rightarrow> u32 \<Rightarrow> u32 list \<Rightarrow> u32 list" where
  "matte_fill 0 i matte target = target"
| "matte_fill (Suc n) i matte target = matte_fill n (Suc i) matte (target[i := matte])"

definition Work_Blend_canvas :: "BlendBaton \<Rightarrow> bool \<Rightarrow> u32 list \<Rightarrow> u32 list" where
  "Work_Blend_canvas baton alpha target =
    (if alpha then matte_fill (nat (pixels baton)) 0 (baton_matte baton) target else target)"

text \<open>Lines 551-556: every image that has a reader is composited, bottom layer first.\<close>

fun composite_images :: "u32 list \<Rightarrow> BlendBaton \<Rightarrow> Image list \<Rightarrow> u32 list option" where
  "composite_images target baton [] = Some target"
| "composite_images target baton (img # images) =
    (case image_reader img of
       None \<Rightarrow> composite_images target baton images
     | Some reader \<Rightarrow>
         (case Blend_Composite target baton img of
            None \<Rightarrow> None
          | Some target' \<Rightarrow> composite_images target' baton images))"

text \<open>Lines 565-573: the tint of one pixel.\<close>

definition tint_pixel :: "(real \<Rightarrow> real) \<Rightarrow> u32 \<Rightarrow> u32" where
  "tint_pixel rd rgba =
    (let r = rgba AND 0xff;
         g = (drop_bit 8 rgba) AND 0xff;
         b = (drop_bit 16 rgba) AND 0xff;
         a = (drop_bit 24 rgba) AND 0xff
     in case rgb2hsl rd r g b of
          (h, s, l) \<Rightarrow>
            (case hsl2rgb rd h s l (r, g, b) of
               (r, g, b) \<Rightarrow> push_bit 24 a OR push_bit 16 b OR push_bit 8 g OR r))"

text \<open>
  Lines 560-575: the two loops of the tint, on \<open>unsigned int\<close>, visit the \<open>height\<close> rows
  of \<open>width\<close> words of the image one after the other (\<open>getRow(y)\<close> of image_data.hpp
  is the address of the word \<open>y * width\<close>). A row that is not inside the block is
  undefined behaviour: \<open>None\<close>.
\<close>

definition tint_canvas :: "(real \<Rightarrow> real) \<Rightarrow> BlendBaton \<Rightarrow> u32 list \<Rightarrow> u32 list option" where
  "tint_canvas rd baton target =
    (let n = unat (word_of_int (baton_width baton) :: u32)
               * unat (word_of_int (baton_height baton) :: u32)
     in if n \<le> length target
        then Some (map (tint_pixel rd) (take n target) @ drop n target)
        else None)"

text \<open>Lines 551-581, from the initialised canvas on.\<close>

definition Work_Blend_finish :: "Env \<Rightarrow> BlendBaton \<Rightarrow> bool \<Rightarrow> u32 list \<Rightarrow> BlendBaton option" where
  "Work_Blend_finish env baton alpha target =
    (case composite_images target baton (baton_images baton) of
       None \<Rightarrow> None
     | Some target \<Rightarrow>
         (case (if \<not> tint_identity (baton_tint baton)
                then tint_canvas (rnd env) baton target else Some target) of
            None \<Rightarrow> None
          | Some target \<Rightarrow>
              Some (Blend_Encode env
                     \<lparr>data_width = baton_width baton, data_height = baton_height baton,
                      data_pixels = target\<rparr> baton alpha)))"

text \<open>
  Lines 527-581, after the loop. The canvas is the block of \<open>pixels\<close> words that
  \<open>malloc(sizeof(unsigned int) * pixels)\<close> returns.
\<close>

definition Work_Blend_blend :: "Env \<Rightarrow> BlendBaton \<Rightarrow> bool \<Rightarrow> BlendBaton option" where
  "Work_Blend_blend env baton alpha =
    (if pixels baton \<le> 0 then
       Some (baton\<lparr>baton_message := ''Image dimensions '' @ show_int (baton_width baton)
               @ ''x'' @ show_int (baton_height baton) @ '' are invalid''\<rparr>)
     else
       case malloc env (nat (pixels baton)) of
         None \<Rightarrow> Some (baton\<lparr>baton_message := ''Memory allocation failed''\<rparr>)
       | Some target \<Rightarrow> Work_Blend_finish env baton alpha (Work_Blend_canvas baton alpha target))"

text \<open>
  \<open>Work_Blend\<close>: the baton as the worker leaves it, \<open>None\<close> when the run has undefined
  behaviour. \<open>Work_Blend_decoded\<close> is the list of the layers it has called
  \<open>decode()\<close> on.
\<close>

definition Work_Blend :: "Env \<Rightarrow> BlendBaton \<Rightarrow> BlendBaton option" where
  "Work_Blend env baton =
    (case Work_Blend_walk env (length (baton_images baton)) baton True 0 [] of
       WORKER_END baton' decoded \<Rightarrow> Some baton'
     | Continue baton' alpha sz decoded \<Rightarrow> Work_Blend_blend env baton' alpha)"

definition Work_Blend_decoded :: "Env \<Rightarrow> BlendBaton \<Rightarrow> nat list" where
  "Work_Blend_decoded env baton =
    (case Work_Blend_walk env (length (baton_images baton)) baton True 0 [] of
       WORKER_END baton' decoded \<Rightarrow> decoded
     | Continue baton' alpha sz decoded \<Rightarrow> decoded)"

text \<open>
  A layer that, where the loop enters its body, is inside the viewport, covers the
  canvas (lines 513-514) and has no alpha once decoded.
\<close>

definition opaque_cover :: "Env \<Rightarrow> nat \<Rightarrow> BlendBaton \<Rightarrow> bool" where
  "opaque_cover env index baton =
    (let img = baton_images baton ! index;
         layer = ImageReader_create env (image_data img);
         baton = seed_canvas baton layer img
     in \<not> outside_viewport baton layer img
        \<and> image_x img \<le> 0 \<and> visibleWidth layer img \<ge> baton_width baton
        \<and> image_y img \<le> 0 \<and> visibleHeight layer img \<ge> baton_height baton
        \<and> \<not> reader_alpha (snd (ImageReader_decode env layer)))"

text \<open>
  To compare two runs: the baton with its \<open>k\<close> bottom layers replaced by \<open>lower\<close>; a
  function applied to the baton inside the result of the loop; the list of decoded
  layers of a result; and the hypothesis on a layer \<open>k\<close> that, whenever the loop
  enters its body, it is an opaque cover.
\<close>

definition below_replaced :: "nat \<Rightarrow> Image list \<Rightarrow> BlendBaton \<Rightarrow> BlendBaton" where
  "below_replaced k lower baton = baton\<lparr>baton_images := lower @ drop k (baton_images baton)\<rparr>"

fun lift_walk :: "(BlendBaton \<Rightarrow> BlendBaton) \<Rightarrow> walk \<Rightarrow> walk" where
  "lift_walk f (WORKER_END baton decoded) = WORKER_END (f baton) decoded"
| "lift_walk f (Continue baton alpha sz decoded) = Continue (f baton) alpha sz decoded"

fun walk_decoded :: "walk \<Rightarrow> nat list" where
  "walk_decoded (WORKER_END baton decoded) = decoded"
| "walk_decoded (Continue baton alpha sz decoded) = decoded"

definition covered_at :: "Env \<Rightarrow> nat \<Rightarrow> BlendBaton \<Rightarrow> bool" where
  "covered_at env k baton =
    (case Work_Blend_reaches env (Suc k) (length (baton_images baton)) baton True 0 [] of
       None \<Rightarrow> True
     | Some (bk, szk, dk) \<Rightarrow> opaque_cover env k bk)"

section \<open>The entry point Blend and the completion Work_AfterBlend\<close>

text \<open>
  What the entry point does: it throws (\<open>TYPE_EXCEPTION\<close>), calls the callback at once
  (\<open>TRY_CATCH_CALL\<close> with the function and its arguments), or queues the baton
  (\<open>QUEUE_WORK\<close>).
\<close>

datatype BlendResult =
    TYPE_EXCEPTION string
  | TRY_CATCH_CALL jsval "jsval list"
  | QUEUE_WORK BlendBaton

text \<open>
  The V8 operations the entry point uses. The conversions are modelled on undefined,
  null, booleans and numbers; on other values they read 0 (NaN is not modelled).
  Named properties are read from plain objects only.
\<close>

definition IsArray :: "jsval \<Rightarrow> bool" where
  "IsArray v = (case v of Array _ \<Rightarrow> True | _ \<Rightarrow> False)"

definition IsFunction :: "jsval \<Rightarrow> bool" where
  "IsFunction v = (case v of Function _ \<Rightarrow> True | _ \<Rightarrow> False)"

definition IsString :: "jsval \<Rightarrow> bool" where
  "IsString v = (case v of String _ \<Rightarrow> True | _ \<Rightarrow> False)"

definition IsObject :: "jsval \<Rightarrow> bool" where
  "IsObject v =
    (case v of
       Object _ \<Rightarrow> True | Array _ \<Rightarrow> True | Function _ \<Rightarrow> True | Buffer _ \<Rightarrow> True
     | WrappedPalette _ \<Rightarrow> True | Error _ \<Rightarrow> True | _ \<Rightarrow> False)"

definition Buffer_HasInstance :: "jsval \<Rightarrow> bool" where
  "Buffer_HasInstance v = (case v of Buffer _ \<Rightarrow> True | _ \<Rightarrow> False)"

definition Buffer_Data :: "jsval \<Rightarrow> byte list" where
  "Buffer_Data v = (case v of Buffer bs \<Rightarrow> bs | _ \<Rightarrow> [])"

definition Get :: "jsval \<Rightarrow> string \<Rightarrow> jsval" where
  "Get v key =
    (case v of
       Object props \<Rightarrow> (case map_of props key of Some x \<Rightarrow> x | None \<Rightarrow> Undefined)
     | _ \<Rightarrow> Undefined)"

definition Has :: "jsval \<Rightarrow> string \<Rightarrow> bool" where
  "Has v key = (case v of Object props \<Rightarrow> map_of props key \<noteq> None | _ \<Rightarrow> False)"

definition Array_elements :: "jsval \<Rightarrow> jsval list" where
  "Array_elements v = (case v of Array vs \<Rightarrow> vs | _ \<Rightarrow> [])"

definition Int32Value :: "jsval \<Rightarrow> int" where
  "Int32Value v =
    (case v of
       Number d \<Rightarrow> int32 (trunc d)
     | Boolean b \<Rightarrow> (if b then 1 else 0)
     | _ \<Rightarrow> 0)"

definition NumberValue :: "jsval \<Rightarrow> real" where
  "NumberValue v =
    (case v of Number d \<Rightarrow> d | Boolean b \<Rightarrow> (if b then 1 else 0) | _ \<Rightarrow> 0)"

definition BooleanValue :: "jsval \<Rightarrow> bool" where
  "BooleanValue v =
    (case v of
       Undefined \<Rightarrow> False | Null \<Rightarrow> False | Boolean b \<Rightarrow> b | Number d \<Rightarrow> d \<noteq> 0
     | String s \<Rightarrow> s \<noteq> [] | _ \<Rightarrow> True)"

definition AsciiValue :: "jsval \<Rightarrow> string" where
  "AsciiValue v = (case v of String s \<Rightarrow> s | _ \<Rightarrow> [])"

text \<open>Lines 185-201: the format and the check of the quality.\<close>

definition Blend_format :: "jsval \<Rightarrow> BlendBaton \<Rightarrow> string + BlendBaton" where
  "Blend_format options baton =
    (let format_val = Get options ''format''
     in if IsString format_val then
          if AsciiValue format_val = ''jpeg'' \<or> AsciiValue format_val = ''jpg'' then
            let baton = baton\<lparr>baton_format := BLEND_FORMAT_JPEG\<rparr>
            in if baton_quality baton = 0 then Inr (baton\<lparr>baton_quality := 80\<rparr>)
               else if baton_quality baton < 0 \<or> baton_quality baton > 100 then
                 Inl ''JPEG quality is range 0-100.''
               else Inr baton
          else if AsciiValue format_val = ''png'' then
            if baton_quality baton = 1 \<or> baton_quality baton > 256 then
              Inl ''PNG images must be quantized between 2 and 256 colors.''
            else Inr baton
          else Inl ''Invalid output format.''
        else Inr baton)"

text \<open>Lines 253-295: the tint. A pair is read when the property is an array of length 2.\<close>

definition tint_pair :: "jsval \<Rightarrow> string \<Rightarrow> string + (real \<times> real) option" where
  "tint_pair tint key =
    (let val = Get tint key
     in if IsArray val then
          if length (Array_elements val) \<noteq> 2 then Inl (key @ '' array must be a pair of values'')
          else Inr (Some (NumberValue (Array_elements val ! 0), NumberValue (Array_elements val ! 1)))
        else Inr None)"

definition Blend_tint :: "jsval \<Rightarrow> BlendBaton \<Rightarrow> string + BlendBaton" where
  "Blend_tint options baton =
    (let tint_val = Get options ''tint''
     in if IsObject tint_val then
          let t = (baton_tint baton)\<lparr>tint_identity := False\<rparr>
          in case tint_pair tint_val ''h'' of
               Inl e \<Rightarrow> Inl e
             | Inr h \<Rightarrow>
                 let t = (case h of Some (v0, v1) \<Rightarrow> t\<lparr>tint_h0 := v0, tint_h1 := v1\<rparr> | None \<Rightarrow> t)
                 in case tint_pair tint_val ''s'' of
                      Inl e \<Rightarrow> Inl e
                    | Inr s \<Rightarrow>
                        let t = (case s of Some (v0, v1) \<Rightarrow> t\<lparr>tint_s0 := v0, tint_s1 := v1\<rparr>
                                 | None \<Rightarrow> t)
                        in case tint_pair tint_val ''l'' of
                             Inl e \<Rightarrow> Inl e
                           | Inr l \<Rightarrow>
                               let t = (case l of
                                          Some (v0, v1) \<Rightarrow> t\<lparr>tint_l0 := v0, tint_l1 := v1\<rparr>
                                        | None \<Rightarrow> t)
                               in case tint_pair tint_val ''a'' of
                                    Inl e \<Rightarrow> Inl e
                                  | Inr a \<Rightarrow>
                                      let t = (case a of
                                                 Some (v0, v1) \<Rightarrow> t\<lparr>tint_a0 := v0, tint_a1 := v1\<rparr>
                                               | None \<Rightarrow> t)
                                      in Inr (baton\<lparr>baton_tint := t\<rparr>)
        else Inr baton)"

text \<open>Lines 182-296: the options, once there is an options object.\<close>

definition Blend_options :: "jsval \<Rightarrow> BlendBaton \<Rightarrow> string + BlendBaton" where
  "Blend_options options baton =
    (let baton = baton\<lparr>baton_quality := Int32Value (Get options ''quality'')\<rparr>
     in case Blend_format options baton of
          Inl e \<Rightarrow> Inl e
        | Inr baton \<Rightarrow>
            let baton = baton\<lparr>baton_reencode := BooleanValue (Get options ''reencode'')\<rparr>;
                baton = baton\<lparr>baton_width := Int32Value (Get options ''width'')\<rparr>;
                baton = baton\<lparr>baton_height := Int32Value (Get options ''height'')\<rparr>;
                matte_val = Get options ''matte'';
                baton = (if IsString matte_val then
                           let baton = baton\<lparr>baton_matte :=
                                         hexToUInt32Color (Some (AsciiValue matte_val))\<rparr>
                           in if baton_matte baton \<noteq> 0 \<and> \<not> baton_reencode baton
                              then baton\<lparr>baton_reencode := True\<rparr> else baton
                         else baton);
                palette_val = Get options ''palette'';
                baton = (if IsObject palette_val then
                           baton\<lparr>baton_palette :=
                             (case palette_val of WrappedPalette p \<Rightarrow> Some p | _ \<Rightarrow> None)\<rparr>
                         else baton);
                mode_val = Get options ''mode'';
                baton = (if IsString mode_val then
                           if AsciiValue mode_val = ''octree'' \<or> AsciiValue mode_val = ''o''
                           then baton\<lparr>baton_mode := BLEND_MODE_OCTREE\<rparr>
                           else if AsciiValue mode_val = ''hextree'' \<or> AsciiValue mode_val = ''h''
                           then baton\<lparr>baton_mode := BLEND_MODE_HEXTREE\<rparr>
                           else baton
                         else baton);
                encoder_val = Get options ''encoder'';
                baton = (if IsString encoder_val \<and> AsciiValue encoder_val = ''miniz''
                         then baton\<lparr>baton_encoder := BLEND_ENCODER_MINIZ\<rparr> else baton);
                max_compression = (if baton_encoder baton = BLEND_ENCODER_MINIZ
                                   then MZ_UBER_COMPRESSION else Z_BEST_COMPRESSION);
                baton = baton\<lparr>baton_compression := Int32Value (Get options ''compression'')\<rparr>;
                baton = (if baton_compression baton \<le> 0
                         then baton\<lparr>baton_compression := Z_DEFAULT_COMPRESSION\<rparr> else baton)
            in if baton_compression baton > max_compression then
                 Inl (''Compression level must be between 1 and '' @ show_int max_compression)
               else Blend_tint options baton)"

text \<open>
  Modelled from the spec: the constructors of \<open>Image\<close> and \<open>BlendBaton\<close> are in blend.hpp,
  which is not among the sources. The offsets of a layer default to 0; the format
  defaults to PNG, the quantiser to octree, the encoder to the default backend, the
  canvas size to 0 (derived from the layers), the quality to 0, the matte to 0; the
  tint is the identity when the caller gives none; message, warnings and stream
  start empty.
\<close>

definition new_Image :: Image where
  "new_Image =
    \<lparr>image_data = [], image_x = 0, image_y = 0, image_width = 0, image_height = 0,
     image_reader = None\<rparr>"

definition new_BlendBaton :: BlendBaton where
  "new_BlendBaton =
    \<lparr>baton_callback = Undefined, baton_images = [], baton_message = [], baton_warnings = [],
     baton_quality = 0, baton_format = BLEND_FORMAT_PNG, baton_reencode = False,
     baton_width = 0, baton_height = 0, baton_palette = None, baton_matte = 0,
     baton_compression = Z_DEFAULT_COMPRESSION, baton_mode = BLEND_MODE_OCTREE,
     baton_encoder = BLEND_ENCODER_LIBPNG,
     baton_tint = \<lparr>tint_h0 = 0, tint_h1 = 1, tint_s0 = 0, tint_s1 = 1, tint_l0 = 0, tint_l1 = 1,
                   tint_a0 = 0, tint_a1 = 1, tint_identity = True\<rparr>,
     baton_stream = []\<rparr>"

definition elements_message :: string where
  "elements_message =
    ''All elements must be Buffers or objects with a '' @ [CHR 0x27] @ ''buffer''
      @ [CHR 0x27] @ '' property.''"

text \<open>Lines 336-360: the images of the baton. \<open>None\<close> is the empty handle \<open>image->buffer\<close>.\<close>

definition Blend_image :: "jsval \<Rightarrow> Image option" where
  "Blend_image buffer =
    (if Buffer_HasInstance buffer then Some (new_Image\<lparr>image_data := Buffer_Data buffer\<rparr>)
     else if IsObject buffer then
       let found = (if Has buffer ''buffer'' \<and> Buffer_HasInstance (Get buffer ''buffer'')
                    then Some (Buffer_Data (Get buffer ''buffer'')) else None);
           img = new_Image\<lparr>image_x := Int32Value (Get buffer ''x''),
                           image_y := Int32Value (Get buffer ''y'')\<rparr>
       in (case found of None \<Rightarrow> None | Some bs \<Rightarrow> Some (img\<lparr>image_data := bs\<rparr>))
     else None)"

fun Blend_images :: "jsval list \<Rightarrow> BlendBaton \<Rightarrow> BlendResult" where
  "Blend_images [] baton = QUEUE_WORK baton"
| "Blend_images (buffer # rest) baton =
    (case Blend_image buffer of
       None \<Rightarrow> TYPE_EXCEPTION elements_message
     | Some img \<Rightarrow> Blend_images rest (baton\<lparr>baton_images := baton_images baton @ [img]\<rparr>))"

text \<open>Lines 298-365, once the options are read.\<close>

definition Blend_layers :: "jsval \<Rightarrow> BlendBaton \<Rightarrow> BlendResult" where
  "Blend_layers images baton =
    (let len = length (Array_elements images);
         after_single =
           (if \<not> (len \<ge> 1 \<or> (baton_width baton > 0 \<and> baton_height baton > 0)) then
              TYPE_EXCEPTION ''Without buffers, you have to specify width and height.''
            else if baton_width baton < 0 \<or> baton_height baton < 0 then
              TYPE_EXCEPTION ''Image dimensions must be greater than 0.''
            else Blend_images (Array_elements images) baton)
     in if len < 1 \<and> \<not> baton_reencode baton then
          TYPE_EXCEPTION ''First argument must contain at least one Buffer.''
        else if len = 1 \<and> \<not> baton_reencode baton then
          let buffer = Array_elements images ! 0
          in if Buffer_HasInstance buffer then
               TRY_CATCH_CALL (baton_callback baton) [Null, buffer]
             else if \<not> (IsObject buffer \<and> Has buffer ''buffer''
                          \<and> Buffer_HasInstance (Get buffer ''buffer'')) then
               TYPE_EXCEPTION elements_message
             else after_single
        else after_single)"

text \<open>
  \<open>Blend\<close>, on the arguments of the call and the freshly constructed baton.
\<close>

definition Blend :: "BlendBaton \<Rightarrow> jsval list \<Rightarrow> BlendResult" where
  "Blend baton args =
    (if length args = 0 \<or> \<not> IsArray (args ! 0) then
       TYPE_EXCEPTION ''First argument must be an array of Buffers.''
     else if length args = 1 then
       TYPE_EXCEPTION ''Second argument must be a function''
     else if length args = 2 then
       if \<not> IsFunction (args ! 1) then TYPE_EXCEPTION ''Second argument must be a function.''
       else Blend_layers (args ! 0) (baton\<lparr>baton_callback := args ! 1\<rparr>)
     else
       if \<not> IsObject (args ! 1) then
         TYPE_EXCEPTION ''Second argument must be a an options object.''
       else if \<not> IsFunction (args ! 2) then
         TYPE_EXCEPTION ''Third argument must be a function.''
       else
         case Blend_options (args ! 1) (baton\<lparr>baton_callback := args ! 2\<rparr>) of
           Inl e \<Rightarrow> TYPE_EXCEPTION e
         | Inr baton \<Rightarrow> Blend_layers (args ! 0) baton)"

text \<open>\<open>Work_AfterBlend\<close>: the call of the callback when the worker is done.\<close>

definition Work_AfterBlend :: "BlendBaton \<Rightarrow> BlendResult" where
  "Work_AfterBlend baton =
    (if baton_message baton = [] then
       TRY_CATCH_CALL (baton_callback baton)
         [Null, Buffer (baton_stream baton), Array (map String (baton_warnings baton))]
     else
       TRY_CATCH_CALL (baton_callback baton) [Error (baton_message baton)])"

section \<open>Example inputs\<close>

text \<open>
  A toy decoder and toy encoders, to run the worker: an encoded image is the three
  bytes width, height and alpha flag, followed by anything; every decoded pixel is
  opaque red; an encoder writes the low byte of every pixel.
\<close>

definition toy_create :: "byte list \<Rightarrow> ImageReader" where
  "toy_create bytes =
    (case bytes of
       w # h # a # rest \<Rightarrow>
         \<lparr>reader_width = ucast w, reader_height = ucast h, reader_alpha = (a \<noteq> 0),
          reader_message = [], reader_warnings = [], reader_surface = []\<rparr>
     | _ \<Rightarrow>
         \<lparr>reader_width = 0, reader_height = 0, reader_alpha = False,
          reader_message = ''Unknown image format'', reader_warnings = [], reader_surface = []\<rparr>)"

definition toy_decode :: "ImageReader \<Rightarrow> bool \<times> ImageReader" where
  "toy_decode r =
    (True, r\<lparr>reader_surface :=
       replicate (unat (reader_width r) * unat (reader_height r)) 0xFF0000FF\<rparr>)"

definition toy_env :: Env where
  "toy_env =
    \<lparr>ImageReader_create = toy_create, ImageReader_decode = toy_decode,
     malloc = (\<lambda>n. Some (replicate n 0)),
     save_as_jpeg = (\<lambda>quality img. Inr (map ucast (data_pixels img))),
     save_as_png8_pal = (\<lambda>img p compression strategy use_miniz. Inr (map ucast (data_pixels img))),
     save_as_png8_hex = (\<lambda>img colors compression strategy trans_mode gamma use_miniz.
       Inr (map ucast (data_pixels img))),
     save_as_png8_oct = (\<lambda>img colors compression strategy trans_mode use_miniz.
       Inr (map ucast (data_pixels img))),
     save_as_png = (\<lambda>img compression strategy alpha use_miniz. Inr (map ucast (data_pixels img))),
     rnd = round_to 20\<rparr>"

definition opaque_2x2 :: Image where
  "opaque_2x2 = new_Image\<lparr>image_data := [2, 2, 0, 7]\<rparr>"

definition job_single :: BlendBaton where
  "job_single = new_BlendBaton\<lparr>baton_callback := Function 0, baton_images := [opaque_2x2]\<rparr>"

definition job_two :: BlendBaton where
  "job_two = new_BlendBaton\<lparr>baton_callback := Function 0, baton_reencode := True,
     baton_matte := 0xFF00FF00,
     baton_images := [new_Image\<lparr>image_data := [2, 2, 1, 9]\<rparr>, opaque_2x2]\<rparr>"


text \<open>
  A job with a canvas of 65536 by 65537 pixels and one layer of 1 by 1 pixel at the
  offset \<open>(0, 100)\<close>, and its image once decoded.
\<close>

definition job_overflow :: BlendBaton where
  "job_overflow = new_BlendBaton\<lparr>baton_callback := Function 0, baton_reencode := True,
     baton_width := 65536, baton_height := 65537,
     baton_images := [new_Image\<lparr>image_data := [1, 1, 1], image_y := 100\<rparr>]\<rparr>"

definition decoded_1x1 :: Image where
  "decoded_1x1 = new_Image\<lparr>image_data := [1, 1, 1], image_y := 100, image_width := 1,
     image_height := 1,
     image_reader := Some \<lparr>reader_width = 1, reader_height = 1, reader_alpha = True,
       reader_message = [], reader_warnings = [],
       reader_surface = replicate 1 0xFF0000FF\<rparr>\<rparr>"





section \<open>The per-pixel composite\<close>

lemma and_ff_take_bit: "(w::u32) AND 0xff = take_bit 8 w"
  by (simp add: take_bit_eq_mask mask_eq_exp_minus_1)

lemma uint_u32_bounds: "0 \<le> uint (w::u32)" "uint (w::u32) < 4294967296"
  using uint_lt2p [of w] by simp_all

lemma uint_byte: "uint ((drop_bit k (w::u32)) AND 0xff) = drop_bit k (uint w) mod 256"
proof -
  have "uint (take_bit 8 (drop_bit k w)) = take_bit 8 (drop_bit k (uint w))"
    by (simp add: unsigned_take_bit_eq unsigned_drop_bit_eq bintr_uint)
  then show ?thesis
    by (simp only: and_ff_take_bit take_bit_eq_mod) simp
qed

lemma uint_byte0: "uint ((w::u32) AND 0xff) = uint w mod 256"
  using uint_byte [of 0 w] by simp

lemma byte_range: "0 \<le> (v::int) mod 256" "(v::int) mod 256 \<le> 255"
proof -
  show "0 \<le> v mod 256" by simp
  have "v mod 256 < 256" by simp
  then show "v mod 256 \<le> 255" by linarith
qed

lemma alpha_byte_uint: "int (alpha_byte p) = drop_bit 24 (uint p) mod 256"
  by (simp add: alpha_byte_def uint_byte)

lemma alpha_byte_div: "int (alpha_byte p) = uint p div 16777216"
proof -
  have "0 \<le> uint p div 16777216" "uint p div 16777216 < 256"
    using uint_u32_bounds [of p] by linarith+
  then have "uint p div 16777216 mod 256 = uint p div 16777216" by simp
  then show ?thesis by (simp add: alpha_byte_uint drop_bit_eq_div)
qed

lemma le_00FFFFFF: "((p::u32) \<le> 0x00FFFFFF) = (alpha_byte p = 0)"
proof -
  have "(uint p \<le> 16777215) = (uint p div 16777216 = 0)"
    using uint_u32_bounds [of p] by linarith
  moreover have "(alpha_byte p = 0) = (int (alpha_byte p) = 0)" by simp
  ultimately show ?thesis by (simp add: word_le_def alpha_byte_div del: of_nat_eq_0_iff)
qed

lemma ge_FF000000: "((p::u32) \<ge> 0xFF000000) = (alpha_byte p = 255)"
proof -
  have "(4278190080 \<le> uint p) = (uint p div 16777216 = 255)"
    using uint_u32_bounds [of p] by linarith
  moreover have "(alpha_byte p = 255) = (int (alpha_byte p) = 255)" by linarith
  ultimately show ?thesis by (simp add: word_le_def alpha_byte_div)
qed

lemma exact_alpha_bounds:
  assumes "1 \<le> a0" "a0 \<le> 255" "1 \<le> a1" "a1 \<le> 254"
  shows "0 < exact_alpha a1 a0" "exact_alpha a1 a0 < 65536"
proof -
  have "a0 * a1 \<le> 255 * a1" using assms by (intro mult_right_mono) simp_all
  moreover have "(a1 + a0) * 2 ^ 8 = 256 * a1 + 256 * a0" by simp
  ultimately show "0 < exact_alpha a1 a0"
    unfolding exact_alpha_def push_bit_eq_mult using assms by linarith
  have "0 < (256 - a0) * (256 - a1)" using assms by (intro mult_pos_pos) simp_all
  then show "exact_alpha a1 a0 < 65536"
    by (simp add: exact_alpha_def push_bit_eq_mult algebra_simps)
qed

lemma exact_numerator_bounds:
  assumes "0 \<le> c1" "c1 \<le> 255" "0 \<le> c" "c \<le> 255"
    and "1 \<le> a0" "a0 \<le> 255" "1 \<le> a1" "a1 \<le> 254"
  shows "0 \<le> exact_numerator c1 (c * a0) a1"
    and "exact_numerator c1 (c * a0) a1 \<le> 255 * exact_alpha a1 a0"
proof -
  define z where "z = a0 * (256 - a1)"
  define u where "u = c1 * a1"
  define v where "v = c * z"
  have e: "exact_numerator c1 (c * a0) a1 = 256 * u + v"
    by (simp add: exact_numerator_def push_bit_eq_mult algebra_simps u_def v_def z_def)
  have f: "exact_alpha a1 a0 = 256 * a1 + z"
    by (simp add: exact_alpha_def push_bit_eq_mult algebra_simps z_def)
  have p: "0 \<le> z" unfolding z_def using assms by (intro mult_nonneg_nonneg) simp_all
  have "0 \<le> u" unfolding u_def using assms by (intro mult_nonneg_nonneg) simp_all
  moreover have "0 \<le> v" unfolding v_def using assms p by (intro mult_nonneg_nonneg) simp_all
  ultimately show "0 \<le> exact_numerator c1 (c * a0) a1" unfolding e by linarith
  have "u \<le> 255 * a1" unfolding u_def using assms by (intro mult_right_mono) simp_all
  moreover have "v \<le> 255 * z" unfolding v_def
    using assms p by (intro mult_right_mono) simp_all
  ultimately show "exact_numerator c1 (c * a0) a1 \<le> 255 * exact_alpha a1 a0"
    unfolding e f by simp
qed

lemma uint_mod_id: "0 \<le> (v::int) \<Longrightarrow> v < 4294967296 \<Longrightarrow> v mod 4294967296 = v"
  by simp

lemma uint_alpha_word:
  fixes a0 a1 :: u32
  assumes "1 \<le> uint a0" "uint a0 \<le> 255" "1 \<le> uint a1" "uint a1 \<le> 254"
  shows "uint (push_bit 8 (a1 + a0) - a0 * a1) = exact_alpha (uint a1) (uint a0)"
proof -
  have "uint (push_bit 8 (a1 + a0) - a0 * a1) = exact_alpha (uint a1) (uint a0) mod 4294967296"
    by (simp add: exact_alpha_def push_bit_eq_mult uint_word_ariths mod_simps)
  then show ?thesis
    using exact_alpha_bounds [OF assms] by simp
qed

lemma uint_numerator_word:
  fixes c1 c a0 a1 :: u32
  assumes "uint c1 \<le> 255" "uint c \<le> 255"
    and "1 \<le> uint a0" "uint a0 \<le> 255" "1 \<le> uint a1" "uint a1 \<le> 254"
  shows "uint ((push_bit 8 c1 - c * a0) * a1 + push_bit 8 (c * a0))
         = exact_numerator (uint c1) (uint c * uint a0) (uint a1)"
proof -
  have "uint ((push_bit 8 c1 - c * a0) * a1 + push_bit 8 (c * a0))
         = exact_numerator (uint c1) (uint c * uint a0) (uint a1) mod 4294967296"
    by (simp add: exact_numerator_def push_bit_eq_mult uint_word_ariths mod_simps)
  moreover have "0 \<le> exact_numerator (uint c1) (uint c * uint a0) (uint a1)"
    "exact_numerator (uint c1) (uint c * uint a0) (uint a1) < 4294967296"
    using exact_numerator_bounds [of "uint c1" "uint c" "uint a0" "uint a1"]
      exact_alpha_bounds [of "uint a0" "uint a1"] assms by simp_all
  ultimately show ?thesis by simp
qed

lemma uint_channel_word:
  fixes c1 c a0 a1 :: u32
  assumes "uint c1 \<le> 255" "uint c \<le> 255"
    and "1 \<le> uint a0" "uint a0 \<le> 255" "1 \<le> uint a1" "uint a1 \<le> 254"
  shows "uint (((push_bit 8 c1 - c * a0) * a1 + push_bit 8 (c * a0)) div (push_bit 8 (a1 + a0) - a0 * a1))
         = exact_numerator (uint c1) (uint c * uint a0) (uint a1) div exact_alpha (uint a1) (uint a0)"
  by (simp only: uint_div uint_numerator_word [OF assms] uint_alpha_word [OF assms(3-6)])

lemma exact_channel_byte:
  assumes "0 \<le> c1" "c1 \<le> 255" "0 \<le> c" "c \<le> 255"
    and "1 \<le> a0" "a0 \<le> 255" "1 \<le> a1" "a1 \<le> 254"
  shows "0 \<le> exact_numerator c1 (c * a0) a1 div exact_alpha a1 a0"
    and "exact_numerator c1 (c * a0) a1 div exact_alpha a1 a0 \<le> 255"
proof -
  note n = exact_numerator_bounds [OF assms]
  note a = exact_alpha_bounds [OF assms(5-8)]
  show "0 \<le> exact_numerator c1 (c * a0) a1 div exact_alpha a1 a0"
    using n(1) a(1) by (simp add: pos_imp_zdiv_nonneg_iff)
  have "exact_numerator c1 (c * a0) a1 div exact_alpha a1 a0 \<le> (255 * exact_alpha a1 a0) div exact_alpha a1 a0"
    using n(2) a(1) by (intro zdiv_mono1) simp_all
  then show "exact_numerator c1 (c * a0) a1 div exact_alpha a1 a0 \<le> 255"
    using a(1) by simp
qed

lemma uint_shift:
  fixes a :: u32
  assumes "uint a * 2 ^ k < 4294967296"
  shows "uint (push_bit k a) = push_bit k (uint a)"
proof -
  have "uint (push_bit k a) = take_bit 32 (push_bit k (uint a))"
    by (simp only: unsigned_push_bit_eq) simp
  then have "uint (push_bit k a) = (uint a * 2 ^ k) mod 4294967296"
    by (simp add: take_bit_eq_mod push_bit_eq_mult)
  moreover have "0 \<le> uint a * 2 ^ k" by simp
  ultimately show ?thesis using assms by (simp add: push_bit_eq_mult)
qed

lemma uint_pack:
  fixes a b g r :: u32
  assumes "uint a \<le> 255" "uint b \<le> 255" "uint g \<le> 255"
  shows "uint (push_bit 24 a OR push_bit 16 b OR push_bit 8 g OR r)
       = push_bit 24 (uint a) OR push_bit 16 (uint b) OR push_bit 8 (uint g) OR uint r"
proof -
  have "uint (push_bit 24 a) = push_bit 24 (uint a)"
    using assms(1) by (intro uint_shift) simp
  moreover have "uint (push_bit 16 b) = push_bit 16 (uint b)"
    using assms(2) by (intro uint_shift) simp
  moreover have "uint (push_bit 8 g) = push_bit 8 (uint g)"
    using assms(3) by (intro uint_shift) simp
  ultimately show ?thesis by (simp only: uint_or)
qed

lemma uint_drop_bit_u32: "uint (drop_bit k (w::u32)) = drop_bit k (uint w)"
  by (simp add: unsigned_drop_bit_eq bintr_uint)

lemma chan_byte_bounds: "uint (drop_bit k (p::u32) AND 0xff) \<le> 255"
  by (simp only: uint_byte byte_range)

lemma chan_byte0_bounds: "uint ((p::u32) AND 0xff) \<le> 255"
  by (simp only: uint_byte0 byte_range)


text \<open>
  C1. In the partial-transparency branch (the alpha byte of the source \<open>S\<close> in 1..254,
  that of the target \<open>T\<close> in 1..255) the pixel computed by \<open>Blend_CompositePixel\<close> in
  32-bit unsigned arithmetic is the pixel of the exact integer formula
  \<open>a0' = ((a1 + a0) << 8) - a0 * a1\<close>, \<open>c0' = (((c1 << 8) - c0) * a1 + (c0 << 8)) / a0'\<close>
  with \<open>c0\<close> premultiplied by the original \<open>a0\<close>, final alpha \<open>a0' >> 8\<close>. The divisor
  \<open>a0'\<close> is positive, and the exact numerator of every channel (at bit offset \<open>k\<close>)
  lies in \<open>[0, 2^32)\<close>, so that the division truncates and no wrap-around modulo
  \<open>2^32\<close> changes the result.
\<close>

theorem composite_partial_exact:
  assumes "1 \<le> alpha_byte S" "alpha_byte S \<le> 254" "1 \<le> alpha_byte T" "alpha_byte T \<le> 255"
  shows "0 < exact_alpha (int (alpha_byte S)) (int (alpha_byte T))
       \<and> 0 \<le> exact_numerator (drop_bit k (uint S) mod 256)
                 ((drop_bit k (uint T) mod 256) * int (alpha_byte T)) (int (alpha_byte S))
       \<and> exact_numerator (drop_bit k (uint S) mod 256)
                 ((drop_bit k (uint T) mod 256) * int (alpha_byte T)) (int (alpha_byte S)) < 2 ^ 32
       \<and> uint (Blend_CompositePixel T S) = composite_exact (uint T) (uint S)"
proof -
  define a1 where "a1 = drop_bit 24 S AND 0xff"
  define a0 where "a0 = drop_bit 24 T AND 0xff"
  define A' where "A' = push_bit 8 (a1 + a0) - a0 * a1"
  define chan where "chan = (\<lambda>c1 c. ((push_bit 8 c1 - c * a0) * a1 + push_bit 8 (c * a0)) div A')"
  have ua1: "uint a1 = int (alpha_byte S)" and ua0: "uint a0 = int (alpha_byte T)"
    by (simp_all add: a1_def a0_def alpha_byte_def)
  have b: "1 \<le> uint a0" "uint a0 \<le> 255" "1 \<le> uint a1" "uint a1 \<le> 254"
    using assms unfolding ua1 ua0 by simp_all
  note ab = exact_alpha_bounds [OF b]
  have uA: "uint A' = exact_alpha (uint a1) (uint a0)"
    unfolding A'_def by (rule uint_alpha_word [OF b])
  have uchan: "uint (chan c1 c) = exact_numerator (uint c1) (uint c * uint a0) (uint a1) div exact_alpha (uint a1) (uint a0)"
    if "uint c1 \<le> 255" "uint c \<le> 255" for c1 c
    unfolding chan_def A'_def by (rule uint_channel_word [OF that b])
  have chan255: "uint (chan c1 c) \<le> 255" if "uint c1 \<le> 255" "uint c \<le> 255" for c1 c
    unfolding uchan [OF that] using exact_channel_byte(2) [OF _ that(1) _ that(2) b] by simp
  have d8: "uint (drop_bit 8 A') = drop_bit 8 (uint A')"
    by (simp add: unsigned_drop_bit_eq bintr_uint)
  have alpha255: "uint (drop_bit 8 A') \<le> 255"
  proof -
    have "drop_bit 8 (uint A') = uint A' div 256"
      by (simp add: drop_bit_eq_div)
    then show ?thesis using ab(2) unfolding d8 uA by linarith
  qed
  have branch: "\<not> S \<le> 0x00FFFFFF" "\<not> S \<ge> 0xFF000000" "\<not> T \<le> 0x00FFFFFF"
    using assms by (simp_all add: le_00FFFFFF ge_FF000000)
  have code: "Blend_CompositePixel T S =
      push_bit 24 (drop_bit 8 A') OR
      push_bit 16 (chan (drop_bit 16 S AND 0xff) (drop_bit 16 T AND 0xff)) OR
      push_bit 8 (chan (drop_bit 8 S AND 0xff) (drop_bit 8 T AND 0xff)) OR
      chan (S AND 0xff) (T AND 0xff)"
    using branch
    by (simp only: Blend_CompositePixel_def Let_def if_False chan_def A'_def a1_def a0_def simp_thms)
  have spec: "composite_exact (uint T) (uint S) =
      push_bit 24 (drop_bit 8 (uint A')) OR
      push_bit 16 (uint (chan (drop_bit 16 S AND 0xff) (drop_bit 16 T AND 0xff))) OR
      push_bit 8 (uint (chan (drop_bit 8 S AND 0xff) (drop_bit 8 T AND 0xff))) OR
      uint (chan (S AND 0xff) (T AND 0xff))"
    unfolding uA
    by (simp only: composite_exact_def Let_def uchan chan_byte_bounds chan_byte0_bounds
        uint_byte uint_byte0 ua1 ua0 alpha_byte_uint uint_drop_bit_u32)
  have "uint (Blend_CompositePixel T S) = composite_exact (uint T) (uint S)"
    unfolding code spec
    by (simp only: uint_pack [OF alpha255 chan255 chan255] chan_byte_bounds chan_byte0_bounds d8)
  moreover have "0 < exact_alpha (int (alpha_byte S)) (int (alpha_byte T))"
    using ab(1) unfolding ua1 ua0 .
  moreover have "0 \<le> exact_numerator (drop_bit k (uint S) mod 256)
                 ((drop_bit k (uint T) mod 256) * int (alpha_byte T)) (int (alpha_byte S))"
    using exact_numerator_bounds(1) [OF byte_range byte_range b] unfolding ua1 ua0 .
  moreover have "exact_numerator (drop_bit k (uint S) mod 256)
                 ((drop_bit k (uint T) mod 256) * int (alpha_byte T)) (int (alpha_byte S)) < 2 ^ 32"
    using exact_numerator_bounds(2) [OF byte_range byte_range b, of "drop_bit k (uint S)" "drop_bit k (uint T)"] ab(2)
    unfolding ua1 ua0 by simp
  ultimately show ?thesis by simp
qed

theorem composite_partial_exact_witness:
  "1 \<le> alpha_byte 0x800000FF \<and> alpha_byte 0x800000FF \<le> 254 \<and> 1 \<le> alpha_byte 0x80FF0000
   \<and> uint (Blend_CompositePixel 0x80FF0000 0x800000FF) = composite_exact 0x80FF0000 0x800000FF
   \<and> composite_exact 0x80FF0000 0x800000FF = 0xC05500AA"
proof -
  have h: "1 \<le> alpha_byte 0x800000FF" "alpha_byte 0x800000FF \<le> 254"
    "1 \<le> alpha_byte 0x80FF0000" "alpha_byte 0x80FF0000 \<le> 255"
    by (simp_all add: alpha_byte_def)
  have "composite_exact 0x80FF0000 0x800000FF = 0xC05500AA"
    by (simp add: composite_exact_def exact_alpha_def exact_numerator_def Let_def)
  then show ?thesis
    using h composite_partial_exact [OF h, of 0] by simp
qed

text \<open>
  C2 as stated: a source with alpha byte 0 leaves the target unchanged, and a source
  with alpha byte 255 or a target with alpha byte 0 sets the target to the source.
  The second half fails when both alpha bytes are 0: the code tests the source's
  alpha first and leaves the target as it is.
\<close>

theorem composite_replace_counterexample:
  "alpha_byte 0x00000000 = 0 \<and> Blend_CompositePixel 0x00000000 0x00000001 = 0x00000000
   \<and> Blend_CompositePixel 0x00000000 0x00000001 \<noteq> 0x00000001"
  by (simp add: alpha_byte_def Blend_CompositePixel_def)

text \<open>
  C2, amended: a source with alpha byte 0 leaves the target bitwise unchanged; a
  source with alpha byte 255, or a source with a non-zero alpha byte over a target
  with alpha byte 0, sets the target to the source bitwise.
\<close>

theorem composite_keep_or_replace:
  "(alpha_byte S = 0 \<longrightarrow> Blend_CompositePixel T S = T)
   \<and> (alpha_byte S = 255 \<or> (alpha_byte S \<noteq> 0 \<and> alpha_byte T = 0)
        \<longrightarrow> Blend_CompositePixel T S = S)"
  by (simp add: Blend_CompositePixel_def le_00FFFFFF ge_FF000000)

theorem composite_keep_or_replace_witness:
  "alpha_byte 0x00ABCDEF = 0 \<and> Blend_CompositePixel 0x80112233 0x00ABCDEF = 0x80112233
   \<and> alpha_byte 0xFF010203 = 255 \<and> Blend_CompositePixel 0x80112233 0xFF010203 = 0xFF010203
   \<and> alpha_byte 0x40010203 \<noteq> 0 \<and> alpha_byte 0x00112233 = 0
   \<and> Blend_CompositePixel 0x00112233 0x40010203 = 0x40010203"
proof -
  have h: "alpha_byte 0x00ABCDEF = 0" "alpha_byte 0xFF010203 = 255"
    "alpha_byte 0x40010203 \<noteq> 0" "alpha_byte 0x00112233 = 0"
    by (simp_all add: alpha_byte_def)
  show ?thesis
    using h composite_keep_or_replace [of "0x00ABCDEF" "0x80112233"]
      composite_keep_or_replace [of "0xFF010203" "0x80112233"]
      composite_keep_or_replace [of "0x40010203" "0x00112233"]
    by simp
qed

section \<open>The hex colour parser\<close>

lemma xdigit_value_lt: "isxdigit c \<Longrightarrow> xdigit_value c < 16"
  unfolding isxdigit_def xdigit_value_def Let_def by presburger

lemma isxdigit_not_space: "isxdigit c \<Longrightarrow> \<not> isspace c"
  unfolding isxdigit_def isspace_def Let_def by presburger

lemma isxdigit_not_sign:
  "isxdigit c \<Longrightarrow> c \<noteq> CHR ''-''" "isxdigit c \<Longrightarrow> c \<noteq> CHR ''+''"
  "isxdigit c \<Longrightarrow> c \<noteq> CHR ''x''" "isxdigit c \<Longrightarrow> c \<noteq> CHR ''X''"
  unfolding isxdigit_def Let_def by auto

lemma hex_digits_value_append:
  "hex_digits_value (xs @ ys) = hex_digits_value xs * 16 ^ length ys + hex_digits_value ys"
proof -
  define f where "f = (\<lambda>v c. 16 * v + xdigit_value c)"
  have "foldl f a ys = a * 16 ^ length ys + foldl f 0 ys" for a
  proof (induction ys rule: rev_induct)
    case Nil
    show ?case by simp
  next
    case (snoc y ys)
    have "foldl f a (ys @ [y]) = 16 * foldl f a ys + xdigit_value y"
      by (simp add: f_def)
    also have "\<dots> = 16 * (a * 16 ^ length ys + foldl f 0 ys) + xdigit_value y"
      by (simp only: snoc.IH)
    also have "\<dots> = a * 16 ^ length (ys @ [y]) + (16 * foldl f 0 ys + xdigit_value y)"
      by (simp add: algebra_simps)
    also have "16 * foldl f 0 ys + xdigit_value y = foldl f 0 (ys @ [y])"
      by (simp add: f_def)
    finally show ?case .
  qed
  from this [of "foldl f 0 xs"] show ?thesis
    unfolding hex_digits_value_def f_def foldl_append .
qed

lemma hex_pair_lt:
  assumes "length ds = 2" "\<forall>c\<in>set ds. isxdigit c"
  shows "hex_digits_value ds < 256"
proof -
  obtain a b where ds: "ds = [a, b]"
    using assms(1) by (cases ds; cases "tl ds") auto
  have "xdigit_value a < 16" "xdigit_value b < 16"
    using assms(2) by (simp_all add: ds xdigit_value_lt)
  then show ?thesis by (simp add: ds hex_digits_value_def)
qed

lemma no_hex_prefix:
  assumes "\<forall>c\<in>set s. isxdigit c"
  shows "(case s of z # x # d # r \<Rightarrow>
                   if z = CHR ''0'' \<and> (x = CHR ''x'' \<or> x = CHR ''X'') \<and> isxdigit d
                   then d # r else s | _ \<Rightarrow> s) = s"
proof (cases s)
  case Nil
  then show ?thesis by simp
next
  case c1: (Cons z r1)
  show ?thesis
  proof (cases r1)
    case Nil
    then show ?thesis by (simp add: c1)
  next
    case c2: (Cons x r2)
    have x: "isxdigit x" using assms by (simp add: c1 c2)
    show ?thesis
      using isxdigit_not_sign(3,4) [OF x] by (cases r2) (simp_all add: c1 c2)
  qed
qed

lemma stream_extract_hex_digits:
  assumes "s \<noteq> []" "\<forall>c\<in>set s. isxdigit c"
  shows "stream_extract_hex s = of_nat (hex_digits_value s)"
proof -
  obtain a r where s: "s = a # r" using assms(1) by (cases s) auto
  have a: "isxdigit a" using assms(2) by (simp add: s)
  have d: "dropWhile isspace s = s" using a by (simp add: s isxdigit_not_space)
  have t: "takeWhile isxdigit s = s" using assms(2) by (simp add: takeWhile_eq_all_conv)
  have h: "hd s \<noteq> CHR ''-''" "hd s \<noteq> CHR ''+''"
    using isxdigit_not_sign(1,2) [OF a] by (simp_all add: s)
  show ?thesis
    unfolding stream_extract_hex_def Let_def d
    using h assms(1) by (simp add: no_hex_prefix [OF assms(2)] t)
qed

lemma hex_pair_lt_256:
  assumes "i + 2 \<le> length h" "\<forall>c\<in>set h. isxdigit c"
  shows "hex_pair i h < 256"
  unfolding hex_pair_def
proof (rule hex_pair_lt)
  show "length (take 2 (drop i h)) = 2" using assms(1) by simp
  show "\<forall>c\<in>set (take 2 (drop i h)). isxdigit c"
    using assms(2) in_set_dropD in_set_takeD by fast
qed

lemma hex6_value:
  assumes "length h = 6"
  shows "hex_digits_value h = hex_pair 0 h * 65536 + hex_pair 2 h * 256 + hex_pair 4 h"
proof -
  have b: "take 2 (drop 2 h) @ drop 4 h = drop 2 h"
    using append_take_drop_id [of 2 "drop 2 h"] by simp
  have "hex_digits_value (take 2 h @ drop 2 h)
      = hex_digits_value (take 2 h) * 16 ^ 4 + hex_digits_value (drop 2 h)"
    using assms by (simp only: hex_digits_value_append) simp
  moreover have "hex_digits_value (take 2 (drop 2 h) @ drop 4 h)
      = hex_digits_value (take 2 (drop 2 h)) * 16 ^ 2 + hex_digits_value (drop 4 h)"
    using assms by (simp only: hex_digits_value_append) simp
  moreover have "take 2 (drop 4 h) = drop 4 h" using assms by simp
  ultimately show ?thesis unfolding hex_pair_def b by simp
qed

lemma hex8_value:
  assumes "length h = 8"
  shows "hex_digits_value h
    = hex_pair 0 h * 16777216 + hex_pair 2 h * 65536 + hex_pair 4 h * 256 + hex_pair 6 h"
proof -
  have b: "take 2 (drop 2 h) @ drop 4 h = drop 2 h"
    using append_take_drop_id [of 2 "drop 2 h"] by simp
  have c: "take 2 (drop 4 h) @ drop 6 h = drop 4 h"
    using append_take_drop_id [of 2 "drop 4 h"] by simp
  have "hex_digits_value (take 2 h @ drop 2 h)
      = hex_digits_value (take 2 h) * 16 ^ 6 + hex_digits_value (drop 2 h)"
    using assms by (simp only: hex_digits_value_append) simp
  moreover have "hex_digits_value (take 2 (drop 2 h) @ drop 4 h)
      = hex_digits_value (take 2 (drop 2 h)) * 16 ^ 4 + hex_digits_value (drop 4 h)"
    using assms by (simp only: hex_digits_value_append) simp
  moreover have "hex_digits_value (take 2 (drop 4 h) @ drop 6 h)
      = hex_digits_value (take 2 (drop 4 h)) * 16 ^ 2 + hex_digits_value (drop 6 h)"
    using assms by (simp only: hex_digits_value_append) simp
  moreover have "take 2 (drop 6 h) = drop 6 h" using assms by simp
  ultimately show ?thesis unfolding hex_pair_def b c by simp
qed

lemma mask_consts:
  "(0xFF :: u32) = mask 8" "(0xFF00 :: u32) = push_bit 8 (mask 8)"
  "(0xFF0000 :: u32) = push_bit 16 (mask 8)" "(0xFF000000 :: u32) = push_bit 24 (mask 8)"
  by (simp_all add: mask_eq_exp_minus_1 push_bit_eq_mult)

lemma and_FF: "(c::u32) AND 0xFF = take_bit 8 c"
  unfolding mask_consts by (simp add: take_bit_eq_mask)

lemma and_FF00: "(c::u32) AND 0xFF00 = push_bit 8 (take_bit 8 (drop_bit 8 c))"
  unfolding mask_consts by (rule bit_word_eqI) (auto simp: bit_simps)

lemma and_FF0000_drop16: "drop_bit 16 ((c::u32) AND 0xFF0000) = take_bit 8 (drop_bit 16 c)"
  unfolding mask_consts by (rule bit_word_eqI) (auto simp: bit_simps)

lemma and_FF0000_drop8: "drop_bit 8 ((c::u32) AND 0xFF0000) = push_bit 8 (take_bit 8 (drop_bit 16 c))"
  unfolding mask_consts by (rule bit_word_eqI) (auto simp: bit_simps)

lemma and_FF000000_drop24: "drop_bit 24 ((c::u32) AND 0xFF000000) = take_bit 8 (drop_bit 24 c)"
  unfolding mask_consts by (rule bit_word_eqI) (auto simp: bit_simps)

lemma push8_and_FF00: "push_bit 8 ((c::u32) AND 0xFF00) = push_bit 16 (take_bit 8 (drop_bit 8 c))"
  unfolding mask_consts by (rule bit_word_eqI) (auto simp: bit_simps)

lemma push24: "push_bit 24 (c::u32) = push_bit 24 (take_bit 8 c)"
  by (rule bit_word_eqI) (auto simp: bit_simps)

lemma byte_of_nat:
  assumes "n < 2 ^ 32"
  shows "take_bit 8 (drop_bit k (of_nat n :: u32)) = of_nat (n div 2 ^ k mod 256)"
proof -
  have u: "unat (of_nat n :: u32) = n"
    using assms by (simp add: unat_of_nat)
  have "unat (take_bit 8 (drop_bit k (of_nat n :: u32))) = take_bit 8 (drop_bit k (take_bit 32 (unat (of_nat n :: u32))))"
    by (simp only: unsigned_take_bit_eq unsigned_drop_bit_eq) simp
  also have "\<dots> = n div 2 ^ k mod 256"
    using assms unfolding u by (simp add: take_bit_eq_mod drop_bit_eq_div)
  finally have "unat (take_bit 8 (drop_bit k (of_nat n :: u32))) = n div 2 ^ k mod 256" .
  moreover have "unat (of_nat (n div 2 ^ k mod 256) :: u32) = n div 2 ^ k mod 256"
    by (simp add: unat_of_nat)
  ultimately show ?thesis by (simp only: word_unat_eq_iff)
qed

lemma split256:
  fixes q b :: nat
  assumes "b < 256"
  shows "(q * 256 + b) div 256 = q" "(q * 256 + b) mod 256 = b"
  using assms by simp_all

lemma bytes3:
  fixes r g b :: nat
  assumes "g < 256" "b < 256"
  shows "(r * 65536 + g * 256 + b) div 2 ^ 0 mod 256 = b"
    and "(r * 65536 + g * 256 + b) div 2 ^ 8 mod 256 = g"
    and "(r * 65536 + g * 256 + b) div 2 ^ 16 = r"
proof -
  define n where "n = r * 65536 + g * 256 + b"
  have e: "n = (r * 256 + g) * 256 + b" by (simp add: n_def)
  have d1: "n div 256 = r * 256 + g" unfolding e by (rule split256 [OF assms(2)])
  have d2: "n div 65536 = n div 256 div 256" by (simp add: div_mult2_eq)
  have m: "n mod 256 = b" unfolding e by (rule split256 [OF assms(2)])
  show "n div 2 ^ 0 mod 256 = b" using m by simp
  show "n div 2 ^ 8 mod 256 = g" using split256(2) [OF assms(1), of r] by (simp add: d1)
  show "n div 2 ^ 16 = r" using split256(1) [OF assms(1), of r] by (simp add: d2 d1)
qed

lemma bytes4:
  fixes r g b a :: nat
  assumes "g < 256" "b < 256" "a < 256"
  shows "(r * 16777216 + g * 65536 + b * 256 + a) div 2 ^ 0 mod 256 = a"
    and "(r * 16777216 + g * 65536 + b * 256 + a) div 2 ^ 8 mod 256 = b"
    and "(r * 16777216 + g * 65536 + b * 256 + a) div 2 ^ 16 mod 256 = g"
    and "(r * 16777216 + g * 65536 + b * 256 + a) div 2 ^ 24 = r"
proof -
  define n where "n = r * 16777216 + g * 65536 + b * 256 + a"
  have e: "n = (r * 65536 + g * 256 + b) * 256 + a" by (simp add: n_def)
  have d1: "n div 256 = r * 65536 + g * 256 + b" unfolding e by (rule split256 [OF assms(3)])
  have d2: "n div 65536 = n div 256 div 2 ^ 8" by (simp add: div_mult2_eq)
  have d3: "n div 16777216 = n div 256 div 2 ^ 16" by (simp add: div_mult2_eq)
  have m: "n mod 256 = a" unfolding e by (rule split256 [OF assms(3)])
  show "n div 2 ^ 0 mod 256 = a" using m by simp
  show "n div 2 ^ 8 mod 256 = b" using bytes3(1) [OF assms(1,2), of r] by (simp add: d1)
  show "n div 2 ^ 16 mod 256 = g" using bytes3(2) [OF assms(1,2), of r] by (simp add: d2 d1)
  show "n div 2 ^ 24 = r" using bytes3(3) [OF assms(1,2), of r] by (simp add: d3 d1)
qed

text \<open>
  C6. \<open>hexToUInt32Color\<close> returns 0 on the null pointer and on a string whose length
  after an optional leading \<open>#\<close> is neither 6 nor 8. On six hexadecimal digits RRGGBB
  it returns the word with alpha \<open>0xFF\<close>, B in bits 16-23, G in bits 8-15 and R in
  bits 0-7; on eight hexadecimal digits RRGGBBAA the same layout with the alpha AA
  in bits 24-31. Every channel is the value of its two digits and is below 256.
\<close>

theorem hexToUInt32Color_spec:
  "hexToUInt32Color None = 0
   \<and> (length (skip_hash s) \<noteq> 6 \<and> length (skip_hash s) \<noteq> 8 \<longrightarrow> hexToUInt32Color (Some s) = 0)
   \<and> (length (skip_hash s) = 6 \<and> (\<forall>c\<in>set (skip_hash s). isxdigit c) \<longrightarrow>
        hexToUInt32Color (Some s)
          = pack_argb 255 (hex_pair 0 (skip_hash s)) (hex_pair 2 (skip_hash s)) (hex_pair 4 (skip_hash s))
        \<and> hex_pair 0 (skip_hash s) < 256 \<and> hex_pair 2 (skip_hash s) < 256
        \<and> hex_pair 4 (skip_hash s) < 256)
   \<and> (length (skip_hash s) = 8 \<and> (\<forall>c\<in>set (skip_hash s). isxdigit c) \<longrightarrow>
        hexToUInt32Color (Some s)
          = pack_argb (hex_pair 6 (skip_hash s)) (hex_pair 0 (skip_hash s))
              (hex_pair 2 (skip_hash s)) (hex_pair 4 (skip_hash s))
        \<and> hex_pair 0 (skip_hash s) < 256 \<and> hex_pair 2 (skip_hash s) < 256
        \<and> hex_pair 4 (skip_hash s) < 256 \<and> hex_pair 6 (skip_hash s) < 256)"
proof (intro conjI impI)
  show "hexToUInt32Color None = 0" by (simp add: hexToUInt32Color_def)
next
  assume "length (skip_hash s) \<noteq> 6 \<and> length (skip_hash s) \<noteq> 8"
  then show "hexToUInt32Color (Some s) = 0" by (simp add: hexToUInt32Color_def)
next
  define h where "h = skip_hash s"
  assume a: "length (skip_hash s) = 6 \<and> (\<forall>c\<in>set (skip_hash s). isxdigit c)"
  then have len: "length h = 6" and xd: "\<forall>c\<in>set h. isxdigit c" by (simp_all add: h_def)
  have lt: "hex_pair 0 h < 256" "hex_pair 2 h < 256" "hex_pair 4 h < 256"
    using len xd by (simp_all add: hex_pair_lt_256)
  then show "hex_pair 0 (skip_hash s) < 256" "hex_pair 2 (skip_hash s) < 256"
    "hex_pair 4 (skip_hash s) < 256" by (simp_all add: h_def)
  define n where "n = hex_digits_value h"
  have n: "n = hex_pair 0 h * 65536 + hex_pair 2 h * 256 + hex_pair 4 h"
    unfolding n_def by (rule hex6_value [OF len])
  have n32: "n < 2 ^ 32" unfolding n using lt by simp
  have ne: "h \<noteq> []" using len by auto
  have color: "stream_extract_hex h = of_nat n"
    unfolding n_def by (rule stream_extract_hex_digits [OF ne xd])
  have b0: "take_bit 8 (of_nat n :: u32) = of_nat (hex_pair 4 h)"
    using byte_of_nat [OF n32, of 0] bytes3(1) [OF lt(2,3), of "hex_pair 0 h"] by (simp add: n)
  have b1: "take_bit 8 (drop_bit 8 (of_nat n :: u32)) = of_nat (hex_pair 2 h)"
    using byte_of_nat [OF n32, of 8] bytes3(2) [OF lt(2,3), of "hex_pair 0 h"] by (simp add: n)
  have b2: "take_bit 8 (drop_bit 16 (of_nat n :: u32)) = of_nat (hex_pair 0 h)"
    using byte_of_nat [OF n32, of 16] bytes3(3) [OF lt(2,3), of "hex_pair 0 h"] lt(1) by (simp add: n)
  have "hexToUInt32Color (Some s) =
      0xFF000000 OR push_bit 16 (of_nat n AND 0xFF) OR (of_nat n AND 0xFF00)
        OR drop_bit 16 (of_nat n AND 0xFF0000)"
    using len by (simp add: hexToUInt32Color_def Let_def h_def [symmetric] color)
  also have "\<dots> = pack_argb 255 (hex_pair 0 h) (hex_pair 2 h) (hex_pair 4 h)"
    unfolding and_FF and_FF00 and_FF0000_drop16 b0 b1 b2 pack_argb_def by simp
  finally show "hexToUInt32Color (Some s)
      = pack_argb 255 (hex_pair 0 (skip_hash s)) (hex_pair 2 (skip_hash s)) (hex_pair 4 (skip_hash s))"
    by (simp add: h_def)
next
  define h where "h = skip_hash s"
  assume a: "length (skip_hash s) = 8 \<and> (\<forall>c\<in>set (skip_hash s). isxdigit c)"
  then have len: "length h = 8" and xd: "\<forall>c\<in>set h. isxdigit c" by (simp_all add: h_def)
  have lt: "hex_pair 0 h < 256" "hex_pair 2 h < 256" "hex_pair 4 h < 256" "hex_pair 6 h < 256"
    using len xd by (simp_all add: hex_pair_lt_256)
  then show "hex_pair 0 (skip_hash s) < 256" "hex_pair 2 (skip_hash s) < 256"
    "hex_pair 4 (skip_hash s) < 256" "hex_pair 6 (skip_hash s) < 256" by (simp_all add: h_def)
  define n where "n = hex_digits_value h"
  have n: "n = hex_pair 0 h * 16777216 + hex_pair 2 h * 65536 + hex_pair 4 h * 256 + hex_pair 6 h"
    unfolding n_def by (rule hex8_value [OF len])
  have n32: "n < 2 ^ 32" unfolding n using lt by simp
  have ne: "h \<noteq> []" using len by auto
  have color: "stream_extract_hex h = of_nat n"
    unfolding n_def by (rule stream_extract_hex_digits [OF ne xd])
  have b0: "take_bit 8 (of_nat n :: u32) = of_nat (hex_pair 6 h)"
    using byte_of_nat [OF n32, of 0] bytes4(1) [OF lt(2,3,4), of "hex_pair 0 h"] by (simp add: n)
  have b1: "take_bit 8 (drop_bit 8 (of_nat n :: u32)) = of_nat (hex_pair 4 h)"
    using byte_of_nat [OF n32, of 8] bytes4(2) [OF lt(2,3,4), of "hex_pair 0 h"] by (simp add: n)
  have b2: "take_bit 8 (drop_bit 16 (of_nat n :: u32)) = of_nat (hex_pair 2 h)"
    using byte_of_nat [OF n32, of 16] bytes4(3) [OF lt(2,3,4), of "hex_pair 0 h"] by (simp add: n)
  have b3: "take_bit 8 (drop_bit 24 (of_nat n :: u32)) = of_nat (hex_pair 0 h)"
    using byte_of_nat [OF n32, of 24] bytes4(4) [OF lt(2,3,4), of "hex_pair 0 h"] lt(1) by (simp add: n)
  have "hexToUInt32Color (Some s) =
      push_bit 24 (of_nat n) OR push_bit 8 (of_nat n AND 0xFF00)
        OR drop_bit 8 (of_nat n AND 0xFF0000) OR drop_bit 24 (of_nat n AND 0xFF000000)"
    using len by (simp add: hexToUInt32Color_def Let_def h_def [symmetric] color)
  also have "\<dots> = pack_argb (hex_pair 6 h) (hex_pair 0 h) (hex_pair 2 h) (hex_pair 4 h)"
    unfolding push24 [of "of_nat n"] push8_and_FF00 and_FF0000_drop8 and_FF000000_drop24
      b0 b1 b2 b3 pack_argb_def by simp
  finally show "hexToUInt32Color (Some s)
      = pack_argb (hex_pair 6 (skip_hash s)) (hex_pair 0 (skip_hash s))
          (hex_pair 2 (skip_hash s)) (hex_pair 4 (skip_hash s))"
    by (simp add: h_def)
qed

theorem hexToUInt32Color_spec_witness:
  "length (skip_hash ''#FF8000'') = 6 \<and> list_all isxdigit (skip_hash ''#FF8000'')
   \<and> hexToUInt32Color (Some ''#FF8000'') = 0xFF0080FF
   \<and> length (skip_hash ''ff800040'') = 8 \<and> list_all isxdigit (skip_hash ''ff800040'')
   \<and> hexToUInt32Color (Some ''ff800040'') = 0x400080FF
   \<and> length (skip_hash ''#12345'') \<noteq> 6 \<and> length (skip_hash ''#12345'') \<noteq> 8
   \<and> hexToUInt32Color (Some ''#12345'') = 0"
  using hexToUInt32Color_spec [of "''#FF8000''"] hexToUInt32Color_spec [of "''ff800040''"]
    hexToUInt32Color_spec [of "''#12345''"]
  by (simp add: skip_hash_def isxdigit_def pack_argb_def hex_pair_def hex_digits_value_def
      xdigit_value_def)

section \<open>The grey case of hsl2rgb\<close>

lemma hueToRGB_equal:
  assumes "rd 0 = 0" "rd l = l"
  shows "hueToRGB rd l l h = l"
  by (simp add: hueToRGB_def Let_def assms)

text \<open>
  C10. With \<open>s = 0\<close>, \<open>hsl2rgb\<close> returns for every \<open>h\<close> three channels equal to
  \<open>l * 255\<close> truncated to unsigned, although the \<open>s == 0\<close> block falls through into the
  reconstruction from \<open>m1\<close> and \<open>m2\<close>. The hypotheses say that 0, 1, \<open>l\<close> and \<open>2 * l\<close> are
  values of the floating-point format, as they are for a \<open>double\<close> \<open>l\<close> in \<open>[0, 1]\<close>.
\<close>

theorem hsl2rgb_gray:
  assumes "rd 0 = 0" "rd 1 = 1" "rd l = l" "rd (l * 2) = l * 2"
  shows "hsl2rgb rd h 0 l rgb
    = (to_unsigned (rd (l * 255)), to_unsigned (rd (l * 255)), to_unsigned (rd (l * 255)))
    \<and> (0 \<le> rd (l * 255) \<longrightarrow> uint (to_unsigned (rd (l * 255))) = \<lfloor>rd (l * 255)\<rfloor> mod 2 ^ 32)"
proof -
  have m2: "(if l \<le> 0.5 then rd (l * rd (0 + 1)) else rd (rd (l + 0) - rd (l * 0))) = l"
    by (simp add: assms)
  have m1: "rd (rd (l * 2) - l) = l" by (simp add: assms)
  show ?thesis
    unfolding hsl2rgb_def Let_def m2 m1 hueToRGB_equal [OF assms(1,3)]
    by (simp add: to_unsigned_def trunc_def uint_word_of_int take_bit_eq_mod)
qed

theorem hsl2rgb_gray_witness:
  "round_to 10 0 = 0 \<and> round_to 10 1 = 1 \<and> round_to 10 (1 / 2) = 1 / 2
   \<and> round_to 10 (1 / 2 * 2) = 1 / 2 * 2 \<and> 0 \<le> round_to 10 (1 / 2 * 255)
   \<and> hsl2rgb (round_to 10) (1 / 3) 0 (1 / 2) (0, 0, 0) = (127, 127, 127)
   \<and> uint (127 :: u32) = \<lfloor>round_to 10 (1 / 2 * 255)\<rfloor> mod 2 ^ 32"
proof -
  have h: "round_to 10 0 = 0" "round_to 10 1 = 1" "round_to 10 (1 / 2) = 1 / 2"
    "round_to 10 (1 / 2 * 2) = 1 / 2 * 2"
    by (simp_all add: round_to_def)
  have "to_unsigned (round_to 10 (1 / 2 * 255)) = to_unsigned (255 / 2)"
    by (simp add: round_to_def)
  also have "to_unsigned (255 / 2) = 127"
    by (simp add: to_unsigned_def trunc_def)
  finally have u: "to_unsigned (round_to 10 (1 / 2 * 255)) = 127" .
  have p: "0 \<le> round_to 10 (1 / 2 * 255)" by (simp add: round_to_def)
  show ?thesis
    using h p hsl2rgb_gray [OF h, of "1 / 3" "(0, 0, 0)"] unfolding u by simp
qed

section \<open>The arithmetic of int\<close>

lemma int32_id: "- (2 ^ 31) \<le> i \<Longrightarrow> i < 2 ^ 31 \<Longrightarrow> int32 i = i"
  unfolding int32_def by (simp add: signed_of_int signed_take_bit_int_eq_self)

lemma int32_sint: "int32 (sint (w :: u32)) = sint w"
  by (simp add: int32_def)

lemma int32_range: "- (2 ^ 31) \<le> int32 i \<and> int32 i < 2 ^ 31"
  using sint_ge [of "word_of_int i :: 32 word"] sint_lt [of "word_of_int i :: 32 word"]
  by (simp add: int32_def)

lemma pixels_exact:
  "0 \<le> baton_width b * baton_height b \<Longrightarrow> baton_width b * baton_height b < 2 ^ 31
    \<Longrightarrow> pixels b = baton_width b * baton_height b"
  unfolding pixels_def by (rule int32_id) simp_all

lemma int32_period: "int32 (i - 2 ^ 32) = int32 i"
proof -
  have "(word_of_int (i - 2 ^ 32) :: 32 word) = word_of_int i"
    by (simp add: word_of_int_eq_iff take_bit_eq_mod)
  then show ?thesis unfolding int32_def by (rule arg_cong)
qed

lemma int32_positive:
  assumes "0 \<le> i" "i < 2 ^ 32" "0 < int32 i"
  shows "i < 2 ^ 31"
proof (rule ccontr)
  assume "\<not> i < 2 ^ 31"
  then have "- (2 ^ 31) \<le> i - 2 ^ 32" "i - 2 ^ 32 < 2 ^ 31" using assms(2) by simp_all
  then have "int32 (i - 2 ^ 32) = i - 2 ^ 32" by (rule int32_id)
  then have "int32 i = i - 2 ^ 32" unfolding int32_period .
  then show False using assms(2,3) by simp
qed

lemma factor_bound:
  fixes W H :: int
  assumes "0 < W" "0 < H" "W * H < 2 ^ 31"
  shows "W < 2 ^ 31" "H < 2 ^ 31"
proof -
  have "W * 1 \<le> W * H" using assms(1,2) by (intro mult_left_mono) simp_all
  then show "W < 2 ^ 31" using assms(3) by simp
  have "1 * H \<le> W * H" using assms(1,2) by (intro mult_right_mono) simp_all
  then show "H < 2 ^ 31" using assms(3) by simp
qed

lemma visible_exact:
  assumes "0 < w" "w < 2 ^ 31" "- (2 ^ 31) \<le> x" "x < 2 ^ 31" "0 < int32 (w + x)"
  shows "0 < w + x" "w + x < 2 ^ 31" "- (2 ^ 31) < x"
proof -
  show a: "w + x < 2 ^ 31"
  proof (cases "0 \<le> x")
    case True
    then show ?thesis using assms by (intro int32_positive) simp_all
  next
    case False
    then show ?thesis using assms by simp
  qed
  have "- (2 ^ 31) \<le> w + x" using assms by simp
  then have "int32 (w + x) = w + x" using a by (rule int32_id)
  then show "0 < w + x" using assms(5) by simp
  then show "- (2 ^ 31) < x" using assms(2) by simp
qed


section \<open>The blit rectangles of Blend_Composite\<close>

lemma composite_columns_Some:
  assumes "\<forall>c<n. 0 \<le> tp + (x + int c) \<and> tp + (x + int c) < int (length target)
             \<and> 0 \<le> sp + (x + int c) \<and> sp + (x + int c) < int (length source)"
    and "int (length target) < 2 ^ 31" "int (length source) < 2 ^ 31"
    and "0 \<le> x" "x + int n < 2 ^ 31"
  shows "\<exists>t'. composite_columns n x tp sp target source = Some t' \<and> length t' = length target"
  using assms
proof (induction n arbitrary: x target)
  case 0
  show ?case by simp
next
  case (Suc n)
  have here: "0 \<le> tp + x \<and> tp + x < int (length target) \<and> 0 \<le> sp + x \<and> sp + x < int (length source)"
    using Suc.prems(1) [rule_format, of 0] by simp
  have t: "int32 (tp + x) = tp + x" using here Suc.prems(2) by (intro int32_id) simp_all
  have s: "int32 (sp + x) = sp + x" using here Suc.prems(3) by (intro int32_id) simp_all
  have x: "int32 (x + 1) = x + 1" using Suc.prems(4,5) by (intro int32_id) simp_all
  define target' where "target' = target[nat (tp + x) :=
      Blend_CompositePixel (target ! nat (tp + x)) (source ! nat (sp + x))]"
  have len: "length target' = length target" by (simp add: target'_def)
  have rest: "\<forall>c<n. 0 \<le> tp + ((x + 1) + int c) \<and> tp + ((x + 1) + int c) < int (length target')
             \<and> 0 \<le> sp + ((x + 1) + int c) \<and> sp + ((x + 1) + int c) < int (length source)"
  proof (intro allI impI)
    fix c assume "c < n"
    then have "Suc c < Suc n" by simp
    from Suc.prems(1) [rule_format, OF this]
    show "0 \<le> tp + ((x + 1) + int c) \<and> tp + ((x + 1) + int c) < int (length target')
             \<and> 0 \<le> sp + ((x + 1) + int c) \<and> sp + ((x + 1) + int c) < int (length source)"
      by (simp add: len algebra_simps)
  qed
  have more: "int (length target') < 2 ^ 31" "0 \<le> x + 1" "(x + 1) + int n < 2 ^ 31"
    using Suc.prems(2,4,5) by (simp_all add: len)
  from Suc.IH [OF rest more(1) Suc.prems(3) more(2,3)] obtain t' where
    "composite_columns n (x + 1) tp sp target' source = Some t'" "length t' = length target'"
    by blast
  then show ?case using here by (simp add: t s x target'_def [symmetric] len)
qed

lemma composite_rows_Some:
  assumes "\<forall>r<n. \<forall>c<nat w. 0 \<le> tp + int r * ts + int c \<and> tp + int r * ts + int c < int (length target)
             \<and> 0 \<le> sp + int r * ss + int c \<and> sp + int r * ss + int c < int (length source)"
    and "int (length target) < 2 ^ 31" "int (length source) < 2 ^ 31" "w < 2 ^ 31"
  shows "\<exists>t'. composite_rows n w tp sp ts ss target source = Some t' \<and> length t' = length target"
  using assms
proof (induction n arbitrary: tp sp target)
  case 0
  show ?case by simp
next
  case (Suc n)
  have "\<forall>c<nat w. 0 \<le> tp + (0 + int c) \<and> tp + (0 + int c) < int (length target)
             \<and> 0 \<le> sp + (0 + int c) \<and> sp + (0 + int c) < int (length source)"
    using Suc.prems(1) [rule_format, of 0] by simp
  moreover have "(0::int) \<le> 0" "0 + int (nat w) < 2 ^ 31" using Suc.prems(4) by simp_all
  ultimately obtain t1 where
    t1: "composite_columns (nat w) 0 tp sp target source = Some t1" "length t1 = length target"
    using composite_columns_Some Suc.prems(2,3) by blast
  have rest: "\<forall>r<n. \<forall>c<nat w. 0 \<le> int32 (tp + ts) + int r * ts + int c
             \<and> int32 (tp + ts) + int r * ts + int c < int (length t1)
             \<and> 0 \<le> int32 (sp + ss) + int r * ss + int c
             \<and> int32 (sp + ss) + int r * ss + int c < int (length source)"
  proof (intro allI impI)
    fix r c assume rc: "r < n" "c < nat w"
    then have one: "Suc 0 < Suc n" "0 < nat w" by simp_all
    from Suc.prems(1) [rule_format, OF one]
    have first: "0 \<le> tp + ts" "tp + ts < int (length target)"
      "0 \<le> sp + ss" "sp + ss < int (length source)" by simp_all
    have t: "int32 (tp + ts) = tp + ts" using first(1,2) Suc.prems(2) by (intro int32_id) simp_all
    have s: "int32 (sp + ss) = sp + ss" using first(3,4) Suc.prems(3) by (intro int32_id) simp_all
    from rc have "Suc r < Suc n" by simp
    from Suc.prems(1) [rule_format, OF this rc(2)]
    show "0 \<le> int32 (tp + ts) + int r * ts + int c
             \<and> int32 (tp + ts) + int r * ts + int c < int (length t1)
             \<and> 0 \<le> int32 (sp + ss) + int r * ss + int c
             \<and> int32 (sp + ss) + int r * ss + int c < int (length source)"
      unfolding t s by (simp add: t1(2) algebra_simps)
  qed
  have "int (length t1) < 2 ^ 31" using Suc.prems(2) by (simp add: t1(2))
  from Suc.IH [OF rest this Suc.prems(3,4)] obtain t' where
    "composite_rows n w (int32 (tp + ts)) (int32 (sp + ss)) ts ss t1 source = Some t'"
    "length t' = length t1"
    by blast
  then show ?case by (simp add: t1)
qed

lemma cell_index:
  fixes r c W H :: int
  assumes "0 \<le> r" "r < H" "0 \<le> c" "c < W"
  shows "0 \<le> r * W + c" "r * W + c < W * H"
proof -
  have W: "0 \<le> W" using assms by simp
  have "0 \<le> r * W" using assms(1) W by (rule mult_nonneg_nonneg)
  then show "0 \<le> r * W + c" using assms(3) by simp
  have "r * W \<le> (H - 1) * W" using assms(2) W by (intro mult_right_mono) simp_all
  then show "r * W + c < W * H" using assms(4) by (simp add: algebra_simps)
qed

text \<open>
  Where no product overflows: for a layer of \<open>width * height < 2^31\<close> decoded pixels
  that passed the viewport check, and a canvas of \<open>width * height < 2^31\<close> words, the
  blit rectangle has a width and a height \<open>\<ge> 0\<close>, it lies inside the surface and inside
  the canvas, every index of the two loops is inside its buffer, and the call is
  defined.
\<close>

lemma Blend_Composite_defined:
  assumes rd: "image_reader img = Some reader"
    and surf: "length (reader_surface reader) = nat (image_width img * image_height img)"
    and dims: "0 < image_width img" "0 < image_height img"
      "image_width img * image_height img < 2 ^ 31"
    and off: "- (2 ^ 31) \<le> image_x img" "image_x img < 2 ^ 31"
      "- (2 ^ 31) \<le> image_y img" "image_y img < 2 ^ 31"
    and view: "0 < int32 (image_width img + image_x img)"
      "0 < int32 (image_height img + image_y img)"
      "image_x img < baton_width baton" "image_y img < baton_height baton"
    and canvas: "0 < baton_width baton" "0 < baton_height baton"
      "baton_width baton * baton_height baton < 2 ^ 31"
      "length target = nat (pixels baton)"
  shows "0 \<le> blit_width baton img \<and> 0 \<le> blit_height baton img
    \<and> 0 \<le> sourceX img \<and> sourceX img + blit_width baton img \<le> image_width img
    \<and> 0 \<le> sourceY img \<and> sourceY img + blit_height baton img \<le> image_height img
    \<and> 0 \<le> targetX img \<and> targetX img + blit_width baton img \<le> baton_width baton
    \<and> 0 \<le> targetY img \<and> targetY img + blit_height baton img \<le> baton_height baton
    \<and> (\<forall>row col. 0 \<le> row \<and> row < blit_height baton img \<and> 0 \<le> col \<and> col < blit_width baton img
          \<longrightarrow> 0 \<le> sourcePos img + row * image_width img + col
            \<and> sourcePos img + row * image_width img + col < int (length (reader_surface reader))
            \<and> 0 \<le> targetPos baton img + row * baton_width baton + col
            \<and> targetPos baton img + row * baton_width baton + col < int (length target))
    \<and> (\<exists>target'. Blend_Composite target baton img = Some target'
          \<and> length target' = length target)
    \<and> (image_x img < 0 \<longrightarrow> sourceX img = - image_x img \<and> targetX img = 0)
    \<and> (image_y img < 0 \<longrightarrow> sourceY img = - image_y img \<and> targetY img = 0)"
proof -
  note iwh = factor_bound [OF dims]
  note bwh = factor_bound [OF canvas(1,2,3)]
  note vx = visible_exact [OF dims(1) iwh(1) off(1,2) view(1)]
  note vy = visible_exact [OF dims(2) iwh(2) off(3,4) view(2)]
  have nx: "int32 (- image_x img) = - image_x img" using vx(3) off(2) by (intro int32_id) simp_all
  have ny: "int32 (- image_y img) = - image_y img" using vy(3) off(4) by (intro int32_id) simp_all
  have sX: "sourceX img = max 0 (- image_x img)" by (simp add: sourceX_def nx)
  have sY: "sourceY img = max 0 (- image_y img)" by (simp add: sourceY_def ny)
  have sXr: "0 \<le> sourceX img" "sourceX img < image_width img"
    using vx(1) dims(1) by (simp_all add: sX)
  have sYr: "0 \<le> sourceY img" "sourceY img < image_height img"
    using vy(1) dims(2) by (simp_all add: sY)
  have tXr: "0 \<le> targetX img" "targetX img < baton_width baton"
    using view(3) canvas(1) by (simp_all add: targetX_def)
  have tYr: "0 \<le> targetY img" "targetY img < baton_height baton"
    using view(4) canvas(2) by (simp_all add: targetY_def)
  have w1: "int32 (image_width img - sourceX img) = image_width img - sourceX img"
    using sXr iwh(1) by (intro int32_id) simp_all
  have w2: "int32 (image_x img + image_width img) = image_x img + image_width img"
    using vx(1,2) by (intro int32_id) simp_all
  have w3: "int32 (image_x img + image_width img - baton_width baton)
      = image_x img + image_width img - baton_width baton"
    using vx(1,2) canvas(1) bwh(1) by (intro int32_id) simp_all
  have w4: "int32 (image_width img - sourceX img
        - max 0 (image_x img + image_width img - baton_width baton))
      = image_width img - sourceX img - max 0 (image_x img + image_width img - baton_width baton)"
    using sXr iwh(1) view(3) vx(3) bwh(1) by (intro int32_id) (simp_all add: sX max_def)
  have bw: "blit_width baton img
      = image_width img - sourceX img - max 0 (image_x img + image_width img - baton_width baton)"
    unfolding blit_width_def w2 w3 w1 w4 ..
  have h1: "int32 (image_height img - sourceY img) = image_height img - sourceY img"
    using sYr iwh(2) by (intro int32_id) simp_all
  have h2: "int32 (image_y img + image_height img) = image_y img + image_height img"
    using vy(1,2) by (intro int32_id) simp_all
  have h3: "int32 (image_y img + image_height img - baton_height baton)
      = image_y img + image_height img - baton_height baton"
    using vy(1,2) canvas(2) bwh(2) by (intro int32_id) simp_all
  have h4: "int32 (image_height img - sourceY img
        - max 0 (image_y img + image_height img - baton_height baton))
      = image_height img - sourceY img - max 0 (image_y img + image_height img - baton_height baton)"
    using sYr iwh(2) view(4) vy(3) bwh(2) by (intro int32_id) (simp_all add: sY max_def)
  have bh: "blit_height baton img
      = image_height img - sourceY img - max 0 (image_y img + image_height img - baton_height baton)"
    unfolding blit_height_def h2 h3 h1 h4 ..
  note sc = cell_index [OF sYr sXr]
  have "0 \<le> sourceY img * image_width img"
    using sYr(1) dims(1) by (intro mult_nonneg_nonneg) simp_all
  then have p1: "int32 (sourceY img * image_width img) = sourceY img * image_width img"
    using sc(2) sXr(1) dims(3) by (intro int32_id) simp_all
  have p2: "int32 (sourceY img * image_width img + sourceX img)
      = sourceY img * image_width img + sourceX img"
    using sc dims(3) by (intro int32_id) simp_all
  have sP: "sourcePos img = sourceY img * image_width img + sourceX img"
    unfolding sourcePos_def p1 p2 ..
  note tc = cell_index [OF tYr tXr]
  have "0 \<le> targetY img * baton_width baton"
    using tYr(1) canvas(1) by (intro mult_nonneg_nonneg) simp_all
  then have q1: "int32 (targetY img * baton_width baton) = targetY img * baton_width baton"
    using tc(2) tXr(1) canvas(3) by (intro int32_id) simp_all
  have q2: "int32 (targetY img * baton_width baton + targetX img)
      = targetY img * baton_width baton + targetX img"
    using tc canvas(3) by (intro int32_id) simp_all
  have tP: "targetPos baton img = targetY img * baton_width baton + targetX img"
    unfolding targetPos_def q1 q2 ..
  define w where "w = blit_width baton img"
  define h where "h = blit_height baton img"
  have rect: "0 \<le> w" "0 \<le> h"
    "0 \<le> sourceX img" "sourceX img + w \<le> image_width img"
    "0 \<le> sourceY img" "sourceY img + h \<le> image_height img"
    "0 \<le> targetX img" "targetX img + w \<le> baton_width baton"
    "0 \<le> targetY img" "targetY img + h \<le> baton_height baton"
    using dims(1,2) vx(1) vy(1) view(3,4) canvas(1,2)
    unfolding w_def h_def bw bh sX sY targetX_def targetY_def max_def
    by simp_all
  have neg: "image_x img < 0 \<longrightarrow> sourceX img = - image_x img \<and> targetX img = 0"
    "image_y img < 0 \<longrightarrow> sourceY img = - image_y img \<and> targetY img = 0"
    unfolding sX sY targetX_def targetY_def max_def by simp_all
  have slen: "int (length (reader_surface reader)) = image_width img * image_height img"
    using dims by (simp add: surf)
  have "0 \<le> baton_width baton * baton_height baton"
    using canvas(1,2) by (intro mult_nonneg_nonneg) simp_all
  then have tlen: "int (length target) = baton_width baton * baton_height baton"
    using canvas(3,4) by (simp add: pixels_exact)
  have idx: "0 \<le> sourcePos img + row * image_width img + col
            \<and> sourcePos img + row * image_width img + col < int (length (reader_surface reader))
            \<and> 0 \<le> targetPos baton img + row * baton_width baton + col
            \<and> targetPos baton img + row * baton_width baton + col < int (length target)"
    if "0 \<le> row" "row < h" "0 \<le> col" "col < w" for row col
  proof -
    have s: "sourcePos img + row * image_width img + col
        = (sourceY img + row) * image_width img + (sourceX img + col)"
      by (simp add: sP algebra_simps)
    have t: "targetPos baton img + row * baton_width baton + col
        = (targetY img + row) * baton_width baton + (targetX img + col)"
      by (simp add: tP algebra_simps)
    have "0 \<le> sourceY img + row" "sourceY img + row < image_height img"
      "0 \<le> sourceX img + col" "sourceX img + col < image_width img"
      "0 \<le> targetY img + row" "targetY img + row < baton_height baton"
      "0 \<le> targetX img + col" "targetX img + col < baton_width baton"
      using rect that by simp_all
    then show ?thesis
      unfolding s t slen tlen by (intro conjI cell_index)
  qed
  have all: "\<forall>r<nat h. \<forall>c<nat w.
      0 \<le> targetPos baton img + int r * baton_width baton + int c
      \<and> targetPos baton img + int r * baton_width baton + int c < int (length target)
      \<and> 0 \<le> sourcePos img + int r * image_width img + int c
      \<and> sourcePos img + int r * image_width img + int c < int (length (reader_surface reader))"
  proof (intro allI impI)
    fix r c assume "r < nat h" "c < nat w"
    then have "0 \<le> int r" "int r < h" "0 \<le> int c" "int c < w" by simp_all
    from idx [OF this]
    show "0 \<le> targetPos baton img + int r * baton_width baton + int c
      \<and> targetPos baton img + int r * baton_width baton + int c < int (length target)
      \<and> 0 \<le> sourcePos img + int r * image_width img + int c
      \<and> sourcePos img + int r * image_width img + int c < int (length (reader_surface reader))"
      by simp
  qed
  have small: "int (length target) < 2 ^ 31" "int (length (reader_surface reader)) < 2 ^ 31"
    "w < 2 ^ 31"
    using canvas(3) dims(3) rect(3,4) iwh(1) by (simp_all add: tlen slen)
  from composite_rows_Some [OF all small]
  have some: "\<exists>target'. Blend_Composite target baton img = Some target'
          \<and> length target' = length target"
    by (simp add: Blend_Composite_def rd w_def h_def)
  show ?thesis
    using rect neg idx some unfolding w_def h_def by blast
qed

section \<open>The loop of Work_Blend\<close>

lemma Work_Blend_walk_False:
  "Work_Blend_walk env n b False sz d = Continue b False sz d"
  by (cases n) simp_all

lemma Work_Blend_reaches_walk:
  "Work_Blend_reaches env k n b alpha sz d = Some (bk, szk, dk)
    \<Longrightarrow> Work_Blend_walk env n b alpha sz d = Work_Blend_walk env k bk True szk dk"
proof (induction n arbitrary: b alpha sz d)
  case 0
  then show ?case by simp
next
  case (Suc n)
  show ?case
  proof (cases "Suc n = k")
    case True
    then show ?thesis using Suc.prems by (auto split: if_splits)
  next
    case False
    then show ?thesis
      using Suc.prems Suc.IH
      by (cases "Work_Blend_layer env n b sz d") (auto split: if_splits)
  qed
qed

lemma seed_canvas_fields:
  "baton_stream (seed_canvas b l i) = baton_stream b"
  "baton_message (seed_canvas b l i) = baton_message b"
  "baton_callback (seed_canvas b l i) = baton_callback b"
  "baton_reencode (seed_canvas b l i) = baton_reencode b"
  "baton_warnings (seed_canvas b l i) = baton_warnings b"
  "baton_images (seed_canvas b l i) = baton_images b"
  by (simp_all add: seed_canvas_def Let_def)

lemma Work_Blend_layer_Continue:
  assumes "Work_Blend_layer env i b sz d = Continue b' alpha' sz' d'"
  shows "baton_stream b' = baton_stream b \<and> baton_message b' = baton_message b
    \<and> baton_callback b' = baton_callback b \<and> baton_reencode b' = baton_reencode b
    \<and> sz \<le> sz'
    \<and> (sz' = sz \<longrightarrow> baton_warnings b' = baton_warnings b \<and> baton_images b' = baton_images b
          \<and> d' = d)"
  using assms
  unfolding Work_Blend_layer_def Let_def
  by (auto simp: seed_canvas_fields split: if_splits prod.splits)

lemma Work_Blend_reaches_inv:
  "Work_Blend_reaches env k n b alpha sz d = Some (bk, szk, dk)
    \<Longrightarrow> baton_stream bk = baton_stream b \<and> baton_message bk = baton_message b
      \<and> baton_callback bk = baton_callback b \<and> baton_reencode bk = baton_reencode b
      \<and> sz \<le> szk
      \<and> (szk = sz \<longrightarrow> baton_warnings bk = baton_warnings b \<and> baton_images bk = baton_images b
            \<and> dk = d)"
proof (induction n arbitrary: b alpha sz d)
  case 0
  then show ?case by simp
next
  case (Suc n)
  show ?case
  proof (cases "Suc n = k")
    case True
    then show ?thesis using Suc.prems by (auto split: if_splits)
  next
    case False
    show ?thesis
    proof (cases "Work_Blend_layer env n b sz d")
      case (WORKER_END b' d')
      then show ?thesis using Suc.prems False by (auto split: if_splits)
    next
      case (Continue b' alpha' sz' d')
      then have r: "Work_Blend_reaches env k n b' alpha' sz' d' = Some (bk, szk, dk)"
        using Suc.prems False by (auto split: if_splits)
      note step = Work_Blend_layer_Continue [OF Continue]
      note rest = Suc.IH [OF r]
      show ?thesis using step rest by auto
    qed
  qed
qed

lemma sint_eq_0_u32: "(sint (w :: u32) = 0) = (w = 0)"
  by (simp add: signed_eq_0_iff)

lemma toy_layer: "ImageReader_create toy_env (image_data opaque_2x2)
  = \<lparr>reader_width = 2, reader_height = 2, reader_alpha = False,
          reader_message = [], reader_warnings = [], reader_surface = []\<rparr>"
  by (simp add: toy_env_def toy_create_def opaque_2x2_def new_Image_def)


text \<open>
  C3. Take a job with \<open>reencode\<close> false, as \<open>Blend\<close> queues it (no message, empty
  stream, no warnings), whose loop enters the body for the layer \<open>index\<close> with
  \<open>size = 0\<close>. If the decoder of that layer reports non-zero dimensions and no alpha,
  its offsets are 0 and its width and height equal those of the canvas (as seeded
  at lines 480-481), then the worker ends with no message and the stream equal to
  the encoded bytes of the layer, the callback receives \<open>(null, bytes, [])\<close>, and
  \<open>decode()\<close> has been called on no layer.
\<close>

theorem short_circuit_pass_through:
  assumes fresh: "baton_message b0 = []" "baton_stream b0 = []" "baton_warnings b0 = []"
    and noreenc: "\<not> baton_reencode b0"
    and reach: "Work_Blend_reaches env (Suc index) (length (baton_images b0)) b0 True 0 []
                  = Some (b, 0, d)"
    and valid: "reader_width (ImageReader_create env (image_data (baton_images b0 ! index))) \<noteq> 0"
      "reader_height (ImageReader_create env (image_data (baton_images b0 ! index))) \<noteq> 0"
    and opaque: "\<not> reader_alpha (ImageReader_create env (image_data (baton_images b0 ! index)))"
    and origin: "image_x (baton_images b0 ! index) = 0" "image_y (baton_images b0 ! index) = 0"
    and exact:
      "sint (reader_width (ImageReader_create env (image_data (baton_images b0 ! index))))
        = baton_width (seed_canvas b (ImageReader_create env (image_data (baton_images b0 ! index)))
            (baton_images b0 ! index))"
      "sint (reader_height (ImageReader_create env (image_data (baton_images b0 ! index))))
        = baton_height (seed_canvas b (ImageReader_create env (image_data (baton_images b0 ! index)))
            (baton_images b0 ! index))"
  shows "\<exists>r. Work_Blend env b0 = Some r \<and> baton_message r = []
    \<and> baton_stream r = image_data (baton_images b0 ! index)
    \<and> Work_AfterBlend r = TRY_CATCH_CALL (baton_callback b0)
          [Null, Buffer (image_data (baton_images b0 ! index)), Array []]
    \<and> Work_Blend_decoded env b0 = []"
proof -
  define img where "img = baton_images b0 ! index"
  define layer where "layer = ImageReader_create env (image_data img)"
  define b1 where "b1 = seed_canvas b layer img"
  note inv = Work_Blend_reaches_inv [OF reach]
  have same: "baton_images b = baton_images b0" "d = []" "baton_warnings b = []"
    "baton_stream b = []" "baton_message b = []" "\<not> baton_reencode b"
    "baton_callback b = baton_callback b0"
    using inv fresh noreenc by simp_all
  have w: "sint (reader_width layer) = baton_width b1" "sint (reader_height layer) = baton_height b1"
    using exact by (simp_all add: b1_def layer_def img_def)
  have nz: "sint (reader_width layer) \<noteq> 0" "sint (reader_height layer) \<noteq> 0"
    using valid by (simp_all add: sint_eq_0_u32 layer_def img_def)
  have pos: "0 < baton_width b1" "0 < baton_height b1"
    using w nz origin unfolding b1_def seed_canvas_def Let_def visibleWidth_def visibleHeight_def img_def
    by (auto simp: int32_sint split: if_splits)
  have "visibleWidth layer img = int32 (sint (reader_width layer))"
    "visibleHeight layer img = int32 (sint (reader_height layer))"
    using origin by (simp_all add: visibleWidth_def visibleHeight_def img_def)
  then have vis: "visibleWidth layer img = baton_width b1" "visibleHeight layer img = baton_height b1"
    unfolding int32_sint by (simp_all add: w)
  have inside: "\<not> outside_viewport b1 layer img"
    using pos origin [folded img_def] by (simp add: outside_viewport_def vis)
  have f: "baton_stream b1 = []" "baton_message b1 = []" "baton_warnings b1 = []"
    "\<not> baton_reencode b1" "baton_callback b1 = baton_callback b0"
    using same by (simp_all add: b1_def seed_canvas_fields)
  have step: "Work_Blend_layer env index b 0 d
      = WORKER_END (b1\<lparr>baton_stream := baton_stream b1 @ image_data img\<rparr>) d"
    using valid opaque origin inside w f(4)
    by (simp add: Work_Blend_layer_def Let_def same(1) img_def [symmetric] layer_def [symmetric]
        b1_def [symmetric])
  have "Work_Blend_walk env (length (baton_images b0)) b0 True 0 []
      = Work_Blend_walk env (Suc index) b True 0 d"
    by (rule Work_Blend_reaches_walk [OF reach])
  also have "\<dots> = WORKER_END (b1\<lparr>baton_stream := baton_stream b1 @ image_data img\<rparr>) d"
    by (simp add: step)
  finally have walk: "Work_Blend_walk env (length (baton_images b0)) b0 True 0 []
      = WORKER_END (b1\<lparr>baton_stream := baton_stream b1 @ image_data img\<rparr>) d" .
  show ?thesis
    using f same(2)
    by (simp add: Work_Blend_def Work_Blend_decoded_def walk Work_AfterBlend_def img_def)
qed

theorem short_circuit_pass_through_witness:
  "baton_message job_single = [] \<and> baton_stream job_single = [] \<and> baton_warnings job_single = []
   \<and> \<not> baton_reencode job_single
   \<and> Work_Blend_reaches toy_env (Suc 0) (length (baton_images job_single)) job_single True 0 []
        = Some (job_single, 0, [])
   \<and> \<not> reader_alpha (ImageReader_create toy_env (image_data (baton_images job_single ! 0)))
   \<and> image_x (baton_images job_single ! 0) = 0 \<and> image_y (baton_images job_single ! 0) = 0
   \<and> (\<exists>r. Work_Blend toy_env job_single = Some r \<and> baton_message r = []
        \<and> baton_stream r = [2, 2, 0, 7]
        \<and> Work_AfterBlend r = TRY_CATCH_CALL (Function 0) [Null, Buffer [2, 2, 0, 7], Array []]
        \<and> Work_Blend_decoded toy_env job_single = [])"
proof -
  have i: "baton_images job_single ! 0 = opaque_2x2" by (simp add: job_single_def)
  have h: "baton_message job_single = []" "baton_stream job_single = []"
    "baton_warnings job_single = []" "\<not> baton_reencode job_single"
    by (simp_all add: job_single_def new_BlendBaton_def)
  have r: "Work_Blend_reaches toy_env (Suc 0) (length (baton_images job_single)) job_single True 0 []
        = Some (job_single, 0, [])"
    by (simp add: job_single_def)
  have v: "reader_width (ImageReader_create toy_env (image_data (baton_images job_single ! 0))) \<noteq> 0"
    "reader_height (ImageReader_create toy_env (image_data (baton_images job_single ! 0))) \<noteq> 0"
    "\<not> reader_alpha (ImageReader_create toy_env (image_data (baton_images job_single ! 0)))"
    by (simp_all add: i toy_layer)
  have o: "image_x (baton_images job_single ! 0) = 0" "image_y (baton_images job_single ! 0) = 0"
    by (simp_all add: i opaque_2x2_def new_Image_def)
  have e: "sint (reader_width (ImageReader_create toy_env (image_data (baton_images job_single ! 0))))
        = baton_width (seed_canvas job_single
            (ImageReader_create toy_env (image_data (baton_images job_single ! 0)))
            (baton_images job_single ! 0))"
    "sint (reader_height (ImageReader_create toy_env (image_data (baton_images job_single ! 0))))
        = baton_height (seed_canvas job_single
            (ImageReader_create toy_env (image_data (baton_images job_single ! 0)))
            (baton_images job_single ! 0))"
    unfolding i toy_layer
    by (simp_all add: seed_canvas_def Let_def visibleWidth_def visibleHeight_def job_single_def
        new_BlendBaton_def opaque_2x2_def new_Image_def int32_def)
  have c: "baton_callback job_single = Function 0" "image_data opaque_2x2 = [2, 2, 0, 7]"
    by (simp_all add: job_single_def opaque_2x2_def)
  show ?thesis
    using h r v(3) o short_circuit_pass_through [OF h r v o e]
    by (simp add: i c)
qed

section \<open>The canvas\<close>

lemma matte_fill_length: "length (matte_fill n i m t) = length t"
  by (induction n arbitrary: i t) simp_all

lemma matte_fill_nth:
  "i + n \<le> length t \<Longrightarrow> j < length t
    \<Longrightarrow> matte_fill n i m t ! j = (if i \<le> j \<and> j < i + n then m else t ! j)"
proof (induction n arbitrary: i t)
  case 0
  then show ?case by auto
next
  case (Suc n)
  have "matte_fill n (Suc i) m (t[i := m]) ! j
      = (if Suc i \<le> j \<and> j < Suc i + n then m else t[i := m] ! j)"
    using Suc.prems by (intro Suc.IH) simp_all
  then show ?case using Suc.prems by (auto simp: nth_list_update)
qed

lemma matte_fill_all:
  assumes "length t = n"
  shows "matte_fill n 0 m t = replicate n m"
proof (rule nth_equalityI)
  show "length (matte_fill n 0 m t) = length (replicate n m)"
    by (simp add: matte_fill_length assms)
  fix j assume "j < length (matte_fill n 0 m t)"
  then have "j < n" by (simp add: matte_fill_length assms)
  then show "matte_fill n 0 m t ! j = replicate n m ! j"
    using matte_fill_nth [of 0 n t j m] assms by simp
qed



text \<open>
  C7. The canvas is the block of \<open>pixels\<close> words, the 32-bit product of line 528, while
  \<open>Blend_Composite\<close> computes its indices from \<open>baton->width\<close> and \<open>baton->height\<close>. For
  the canvas of 65536 by 65537 pixels, \<open>pixels\<close> is 65536 and the job is accepted; the
  layer of 1 by 1 pixel at the offset \<open>(0, 100)\<close> is decoded and passes the viewport
  check; its blit rectangle is 1 by 1 and starts at the index \<open>100 * 65536\<close> of the
  canvas, outside the block of 65536 words, so that the write of line 414 and the
  run of the worker are undefined. (Where \<open>width * height < 2^31\<close> the indices are
  inside the canvas: \<open>Blend_Composite_defined\<close>.)
\<close>

theorem Blend_Composite_outside_canvas:
  "Blend new_BlendBaton
     [Array [Object [(''buffer'', Buffer [1, 1, 1]), (''y'', Number 100)]],
      Object [(''width'', Number 65536), (''height'', Number 65537), (''reencode'', Boolean True)],
      Function 0] = QUEUE_WORK job_overflow
   \<and> Work_Blend_walk toy_env (length (baton_images job_overflow)) job_overflow True 0 []
     = Continue (job_overflow\<lparr>baton_images := [decoded_1x1]\<rparr>) True (Suc 0) [0]
   \<and> \<not> outside_viewport job_overflow (ImageReader_create toy_env (image_data decoded_1x1)) decoded_1x1
   \<and> 0 < baton_width job_overflow \<and> 0 < baton_height job_overflow
   \<and> pixels (job_overflow\<lparr>baton_images := [decoded_1x1]\<rparr>) = 65536
   \<and> malloc toy_env 65536 = Some (replicate 65536 0)
   \<and> blit_width job_overflow decoded_1x1 = 1 \<and> blit_height job_overflow decoded_1x1 = 1
   \<and> sourcePos decoded_1x1 = 0
   \<and> targetPos job_overflow decoded_1x1 = 6553600
   \<and> Blend_Composite (replicate 65536 (baton_matte job_overflow)) job_overflow decoded_1x1 = None
   \<and> Work_Blend toy_env job_overflow = None"
proof -
  have queued: "Blend new_BlendBaton
     [Array [Object [(''buffer'', Buffer [1, 1, 1]), (''y'', Number 100)]],
      Object [(''width'', Number 65536), (''height'', Number 65537), (''reencode'', Boolean True)],
      Function 0] = QUEUE_WORK job_overflow"
    by (simp add: Blend_def Blend_layers_def Blend_options_def Blend_format_def Blend_tint_def
      Blend_image_def IsArray_def IsFunction_def IsObject_def IsString_def
      Array_elements_def
      Buffer_HasInstance_def Buffer_Data_def Get_def Has_def Int32Value_def BooleanValue_def
      AsciiValue_def trunc_def int32_def new_Image_def Let_def job_overflow_def new_BlendBaton_def
      Z_BEST_COMPRESSION_def Z_DEFAULT_COMPRESSION_def MZ_UBER_COMPRESSION_def)
  define J where "J = job_overflow\<lparr>baton_images := [decoded_1x1]\<rparr>"
  have i: "baton_images job_overflow ! 0 = new_Image\<lparr>image_data := [1, 1, 1], image_y := 100\<rparr>"
    "length (baton_images job_overflow) = Suc 0"
    by (simp_all add: job_overflow_def)
  have c: "ImageReader_create toy_env [1, 1, 1]
      = \<lparr>reader_width = 1, reader_height = 1, reader_alpha = True,
          reader_message = [], reader_warnings = [], reader_surface = []\<rparr>"
    by (simp add: toy_env_def toy_create_def)
  have dc: "ImageReader_decode toy_env \<lparr>reader_width = 1, reader_height = 1, reader_alpha = True,
          reader_message = [], reader_warnings = [], reader_surface = []\<rparr>
      = (True, \<lparr>reader_width = 1, reader_height = 1, reader_alpha = True,
          reader_message = [], reader_warnings = [], reader_surface = replicate 1 0xFF0000FF\<rparr>)"
    by (simp add: toy_env_def toy_decode_def)
  have s: "seed_canvas job_overflow \<lparr>reader_width = 1, reader_height = 1, reader_alpha = True,
          reader_message = [], reader_warnings = [], reader_surface = []\<rparr>
        (new_Image\<lparr>image_data := [1, 1, 1], image_y := 100\<rparr>) = job_overflow"
    by (simp add: seed_canvas_def Let_def job_overflow_def new_BlendBaton_def)
  have v: "\<not> outside_viewport job_overflow \<lparr>reader_width = 1, reader_height = 1, reader_alpha = True,
          reader_message = [], reader_warnings = [], reader_surface = []\<rparr>
        (new_Image\<lparr>image_data := [1, 1, 1], image_y := 100\<rparr>)"
    by (simp add: outside_viewport_def visibleWidth_def visibleHeight_def int32_def
        job_overflow_def new_BlendBaton_def new_Image_def)
  have v': "\<not> outside_viewport job_overflow (ImageReader_create toy_env (image_data decoded_1x1))
      decoded_1x1"
    by (simp add: decoded_1x1_def c outside_viewport_def visibleWidth_def visibleHeight_def
        int32_def job_overflow_def new_BlendBaton_def new_Image_def)
  have l: "Work_Blend_layer toy_env 0 job_overflow 0 [] = Continue J True (Suc 0) [0]"
    unfolding Work_Blend_layer_def Let_def i
    by (simp add: c s v dc)
      (simp add: J_def decoded_1x1_def job_overflow_def new_BlendBaton_def new_Image_def)
  have w: "Work_Blend_walk toy_env (length (baton_images job_overflow)) job_overflow True 0 []
     = Continue J True (Suc 0) [0]"
    by (simp add: i l)
  have d: "0 < baton_width job_overflow" "0 < baton_height job_overflow"
    by (simp_all add: job_overflow_def)
  have f: "baton_width J = 65536" "baton_height J = 65537" "baton_images J = [decoded_1x1]"
    "baton_width job_overflow = 65536" "baton_height job_overflow = 65537"
    by (simp_all add: J_def job_overflow_def)
  have g: "image_x decoded_1x1 = 0" "image_y decoded_1x1 = 100" "image_width decoded_1x1 = 1"
    "image_height decoded_1x1 = 1"
    "image_reader decoded_1x1 = Some \<lparr>reader_width = 1, reader_height = 1, reader_alpha = True,
       reader_message = [], reader_warnings = [], reader_surface = replicate 1 0xFF0000FF\<rparr>"
    by (simp_all add: decoded_1x1_def new_Image_def)
  have q: "pixels J = 65536" by (simp add: pixels_def f int32_def)
  have m: "malloc toy_env 65536 = Some (replicate 65536 0)" by (simp add: toy_env_def)
  have r: "blit_width job_overflow decoded_1x1 = 1" "blit_height job_overflow decoded_1x1 = 1"
    "sourcePos decoded_1x1 = 0" "targetPos job_overflow decoded_1x1 = 6553600"
    by (simp_all add: blit_width_def blit_height_def sourcePos_def targetPos_def sourceX_def
        sourceY_def targetX_def targetY_def f g int32_def)
  have r': "blit_width J decoded_1x1 = 1" "blit_height J decoded_1x1 = 1"
    "targetPos J decoded_1x1 = 6553600"
    by (simp_all add: blit_width_def blit_height_def sourcePos_def targetPos_def sourceX_def
        sourceY_def targetX_def targetY_def f g int32_def)
  have out: "Blend_Composite target job_overflow decoded_1x1 = None"
    if "length target = 65536" for target
    by (simp add: Blend_Composite_def g r that int32_def)
  have out': "Blend_Composite target J decoded_1x1 = None"
    if "length target = 65536" for target
    by (simp add: Blend_Composite_def g r r' that int32_def)
  have canvas: "Work_Blend_canvas J True (replicate 65536 0) = replicate 65536 (baton_matte J)"
    using matte_fill_all [of "replicate 65536 (0::u32)" 65536 "baton_matte J"]
    by (simp add: Work_Blend_canvas_def q)
  have run: "Work_Blend toy_env job_overflow = None"
    by (simp add: Work_Blend_def w Work_Blend_blend_def q m canvas Work_Blend_finish_def f g out')
  show ?thesis
    using queued w v' d q m r out [of "replicate 65536 (baton_matte job_overflow)"] run
    unfolding J_def by simp
qed

section \<open>Layers below an opaque cover\<close>

lemma below_replaced_fields:
  "baton_stream (below_replaced k lower b) = baton_stream b"
  "baton_message (below_replaced k lower b) = baton_message b"
  "baton_callback (below_replaced k lower b) = baton_callback b"
  "baton_reencode (below_replaced k lower b) = baton_reencode b"
  "baton_warnings (below_replaced k lower b) = baton_warnings b"
  "baton_width (below_replaced k lower b) = baton_width b"
  "baton_height (below_replaced k lower b) = baton_height b"
  "baton_matte (below_replaced k lower b) = baton_matte b"
  "baton_tint (below_replaced k lower b) = baton_tint b"
  "baton_images (below_replaced k lower b) = lower @ drop k (baton_images b)"
  "baton_format (below_replaced k lower b) = baton_format b"
  "baton_quality (below_replaced k lower b) = baton_quality b"
  "baton_palette (below_replaced k lower b) = baton_palette b"
  "baton_mode (below_replaced k lower b) = baton_mode b"
  "baton_encoder (below_replaced k lower b) = baton_encoder b"
  "baton_compression (below_replaced k lower b) = baton_compression b"
  by (simp_all add: below_replaced_def)

lemma below_replaced_updates:
  "below_replaced k lower (b\<lparr>baton_message := m\<rparr>) = (below_replaced k lower b)\<lparr>baton_message := m\<rparr>"
  "below_replaced k lower (b\<lparr>baton_stream := s\<rparr>) = (below_replaced k lower b)\<lparr>baton_stream := s\<rparr>"
  "below_replaced k lower (b\<lparr>baton_warnings := w\<rparr>) = (below_replaced k lower b)\<lparr>baton_warnings := w\<rparr>"
  "below_replaced k lower (b\<lparr>baton_quality := q\<rparr>) = (below_replaced k lower b)\<lparr>baton_quality := q\<rparr>"
  by (simp_all add: below_replaced_def)

lemma seed_canvas_below_replaced:
  "seed_canvas (below_replaced k lower b) l img = below_replaced k lower (seed_canvas b l img)"
  by (simp add: seed_canvas_def below_replaced_def Let_def)

lemma outside_viewport_below_replaced:
  "outside_viewport (below_replaced k lower b) l img = outside_viewport b l img"
  by (simp add: outside_viewport_def below_replaced_def)

lemma nth_below_replaced:
  assumes "length lower = k" "k \<le> i" "i < length (baton_images b)"
  shows "baton_images (below_replaced k lower b) ! i = baton_images b ! i"
  using assms by (simp add: below_replaced_def nth_append)

lemma update_below_replaced:
  assumes "length lower = k" "k \<le> i"
  shows "(below_replaced k lower b)\<lparr>baton_images := (lower @ drop k (baton_images b))[i := v]\<rparr>
    = below_replaced k lower (b\<lparr>baton_images := (baton_images b)[i := v]\<rparr>)"
  using assms by (simp add: below_replaced_def list_update_append drop_update_swap)

lemma Work_Blend_layer_below_replaced:
  assumes "length lower = k" "k \<le> i" "i < length (baton_images b)"
  shows "Work_Blend_layer env i (below_replaced k lower b) sz d
    = lift_walk (below_replaced k lower) (Work_Blend_layer env i b sz d)"
proof -
  define img where "img = baton_images b ! i"
  define layer where "layer = ImageReader_create env (image_data img)"
  define b1 where "b1 = seed_canvas b layer img"
  have n: "baton_images (below_replaced k lower b) ! i = img"
    unfolding img_def by (rule nth_below_replaced [OF assms])
  have L: "(lower @ drop k I)[i := v] = lower @ drop k (I[i := v])" for I :: "Image list" and v
    using assms(1,2) by (simp add: list_update_append drop_update_swap)
  have u: "(below_replaced k lower b2)\<lparr>baton_images := (lower @ drop k (baton_images b2))[i := v]\<rparr>
    = below_replaced k lower (b2\<lparr>baton_images := (baton_images b2)[i := v]\<rparr>)" for b2 v
    by (simp add: below_replaced_def L)
  have w: "baton_images (b2\<lparr>baton_warnings := ws\<rparr>) = baton_images b2" for b2 ws
    by simp
  show ?thesis
    unfolding Work_Blend_layer_def Let_def n img_def [symmetric] layer_def [symmetric]
      seed_canvas_below_replaced b1_def [symmetric] outside_viewport_below_replaced
    by (simp add: below_replaced_fields below_replaced_updates [symmetric] u [of "b1\<lparr>baton_warnings := ws\<rparr>" for ws, simplified]
        split: prod.splits)
qed

lemma Work_Blend_layer_length:
  "Work_Blend_layer env i b sz d = Continue b' alpha' sz' d'
    \<Longrightarrow> length (baton_images b') = length (baton_images b)"
  unfolding Work_Blend_layer_def Let_def
  by (auto simp: seed_canvas_fields split: if_splits prod.splits)

lemma Work_Blend_layer_decoded:
  "walk_decoded (Work_Blend_layer env i b sz d) = d
    \<or> walk_decoded (Work_Blend_layer env i b sz d) = i # d"
  unfolding Work_Blend_layer_def Let_def
  by (auto split: if_splits prod.splits)

lemma opaque_cover_stops:
  assumes "opaque_cover env k b" "Work_Blend_layer env k b sz d = Continue b' alpha' sz' d'"
  shows "\<not> alpha'"
  using assms unfolding opaque_cover_def Work_Blend_layer_def Let_def
  by (auto simp: seed_canvas_fields split: if_splits prod.splits)

lemma Work_Blend_walk_below_replaced:
  assumes "length lower = k"
  shows "k < n \<Longrightarrow> n \<le> length (baton_images b)
    \<Longrightarrow> (\<forall>bk szk dk. Work_Blend_reaches env (Suc k) n b alpha sz d = Some (bk, szk, dk)
          \<longrightarrow> opaque_cover env k bk)
    \<Longrightarrow> Work_Blend_walk env n (below_replaced k lower b) alpha sz d
          = lift_walk (below_replaced k lower) (Work_Blend_walk env n b alpha sz d)
        \<and> (\<forall>i\<in>set (walk_decoded (Work_Blend_walk env n b alpha sz d)). i \<in> set d \<or> k \<le> i)"
proof (induction n arbitrary: b alpha sz d)
  case 0
  then show ?case by simp
next
  case (Suc n)
  show ?case
  proof (cases alpha)
    case False
    then show ?thesis by simp
  next
    case True
    have kn: "k \<le> n" "n < length (baton_images b)" using Suc.prems by simp_all
    note layer = Work_Blend_layer_below_replaced [OF assms kn, of env sz d]
    show ?thesis
    proof (cases "Work_Blend_layer env n b sz d")
      case (WORKER_END b' d')
      have "d' = d \<or> d' = n # d"
        using Work_Blend_layer_decoded [of env n b sz d] by (simp add: WORKER_END)
      then show ?thesis using True layer WORKER_END kn(1) by auto
    next
      case (Continue b' alpha' sz' d')
      have d': "d' = d \<or> d' = n # d"
        using Work_Blend_layer_decoded [of env n b sz d] by (simp add: Continue)
      have len: "length (baton_images b') = length (baton_images b)"
        by (rule Work_Blend_layer_length [OF Continue])
      show ?thesis
      proof (cases "k = n")
        case eq: True
        have "Work_Blend_reaches env (Suc k) (Suc n) b alpha sz d = Some (b, sz, d)"
          using True eq by simp
        then have "opaque_cover env k b" using Suc.prems(3) by blast
        then have "\<not> alpha'" using opaque_cover_stops Continue eq by blast
        then show ?thesis
          using True layer Continue d' kn(1) by (auto simp: Work_Blend_walk_False)
      next
        case neq: False
        then have lt: "k < n" using kn(1) by simp
        have le: "n \<le> length (baton_images b')" using kn(2) len by simp
        have reach: "Work_Blend_reaches env (Suc k) (Suc n) b alpha sz d
            = Work_Blend_reaches env (Suc k) n b' alpha' sz' d'"
          using True neq Continue by simp
        have cov: "\<forall>bk szk dk. Work_Blend_reaches env (Suc k) n b' alpha' sz' d' = Some (bk, szk, dk)
          \<longrightarrow> opaque_cover env k bk"
          using Suc.prems(3) unfolding reach .
        note IH = Suc.IH [OF lt le cov]
        show ?thesis
          using True layer Continue IH d' kn(1) by auto
      qed
    qed
  qed
qed

lemma Blend_Composite_below_replaced:
  "Blend_Composite t (below_replaced k lower b) img = Blend_Composite t b img"
  by (cases "image_reader img")
    (simp_all add: Blend_Composite_def blit_width_def blit_height_def targetPos_def
      below_replaced_fields)

lemma composite_images_below_replaced:
  "composite_images t (below_replaced k lower b) imgs = composite_images t b imgs"
  by (induction imgs arbitrary: t)
    (simp_all add: Blend_Composite_below_replaced split: option.splits)

lemma composite_images_no_reader:
  "\<forall>img\<in>set pre. image_reader img = None
    \<Longrightarrow> composite_images t b (pre @ imgs) = composite_images t b imgs"
  by (induction pre) simp_all

lemma emit_below_replaced:
  "emit r (below_replaced k lower b) = below_replaced k lower (emit r b)"
  by (cases r) (simp_all add: emit_def below_replaced_def)

lemma Blend_Encode_below_replaced:
  "Blend_Encode env img (below_replaced k lower b) alpha
    = below_replaced k lower (Blend_Encode env img b alpha)"
proof -
  have q: "below_replaced k lower b\<lparr>baton_quality := 80\<rparr>
      = below_replaced k lower (b\<lparr>baton_quality := 80\<rparr>)"
    by (simp add: below_replaced_def)
  show ?thesis
  proof (cases "baton_format b = BLEND_FORMAT_JPEG")
    case True
    then show ?thesis
      by (simp add: Blend_Encode_def Let_def q below_replaced_fields emit_below_replaced)
  next
    case False
    then show ?thesis
      by (simp add: Blend_Encode_def Let_def below_replaced_fields emit_below_replaced)
  qed
qed

lemma Work_AfterBlend_below_replaced:
  "Work_AfterBlend (below_replaced k lower b) = Work_AfterBlend b"
  by (simp add: Work_AfterBlend_def below_replaced_fields)

lemma Work_Blend_finish_below_replaced:
  assumes "length lower = k" "\<forall>img\<in>set lower. image_reader img = None"
    and "k \<le> length (baton_images b)"
    and "\<forall>img\<in>set (take k (baton_images b)). image_reader img = None"
  shows "map_option Work_AfterBlend (Work_Blend_finish env (below_replaced k lower b) alpha t)
    = map_option Work_AfterBlend (Work_Blend_finish env b alpha t)"
proof -
  have "composite_images t b (take k (baton_images b) @ drop k (baton_images b))
      = composite_images t b (drop k (baton_images b))"
    by (rule composite_images_no_reader [OF assms(4)])
  then have a: "composite_images t b (baton_images b) = composite_images t b (drop k (baton_images b))"
    by simp
  have b: "composite_images t b (lower @ drop k (baton_images b))
      = composite_images t b (drop k (baton_images b))"
    by (rule composite_images_no_reader [OF assms(2)])
  have t: "tint_canvas rd (below_replaced k lower b) u = tint_canvas rd b u" for rd u
    by (simp add: tint_canvas_def below_replaced_fields)
  show ?thesis
    unfolding Work_Blend_finish_def Let_def composite_images_below_replaced
      below_replaced_fields a b t Blend_Encode_below_replaced
    by (simp add: Work_AfterBlend_below_replaced split: option.splits)
qed

lemma Work_Blend_blend_below_replaced:
  assumes "length lower = k" "\<forall>img\<in>set lower. image_reader img = None"
    and "k \<le> length (baton_images b)"
    and "\<forall>img\<in>set (take k (baton_images b)). image_reader img = None"
  shows "map_option Work_AfterBlend (Work_Blend_blend env (below_replaced k lower b) alpha)
    = map_option Work_AfterBlend (Work_Blend_blend env b alpha)"
proof -
  have p: "pixels (below_replaced k lower b) = pixels b"
    by (simp add: pixels_def below_replaced_fields)
  have c: "Work_Blend_canvas (below_replaced k lower b) alpha t = Work_Blend_canvas b alpha t" for t
    by (simp add: Work_Blend_canvas_def p below_replaced_fields)
  show ?thesis
    unfolding Work_Blend_blend_def Let_def below_replaced_fields c p
    by (simp add: Work_Blend_finish_below_replaced [OF assms] below_replaced_updates [symmetric]
        Work_AfterBlend_below_replaced split: option.splits)
qed

text \<open>
  C4. Let the layer \<open>k\<close> be such that, whenever the loop enters its body, it is
  inside the viewport, covers the canvas (\<open>x \<le> 0\<close>, \<open>y \<le> 0\<close>, \<open>width + x \<ge>\<close> canvas
  width, \<open>height + y \<ge>\<close> canvas height) and has no alpha once decoded. Then replacing
  the \<open>k\<close> layers below it by any \<open>k\<close> layers changes neither the arguments the
  callback receives (error, output bytes, warnings) nor the list of decoded layers,
  and no layer below \<open>k\<close> is decoded.
\<close>

theorem opaque_cover_hides_lower_layers:
  assumes k: "k < length (baton_images b)"
    and lower: "length lower = k" "\<forall>img\<in>set lower. image_reader img = None"
    and fresh: "\<forall>img\<in>set (take k (baton_images b)). image_reader img = None"
    and cover: "covered_at env k b"
  shows "map_option Work_AfterBlend (Work_Blend env (below_replaced k lower b))
      = map_option Work_AfterBlend (Work_Blend env b)
    \<and> Work_Blend_decoded env (below_replaced k lower b) = Work_Blend_decoded env b
    \<and> (\<forall>i\<in>set (Work_Blend_decoded env b). k \<le> i)"
proof -
  define N where "N = length (baton_images b)"
  define W where "W = Work_Blend_walk env N b True 0 []"
  have cov: "\<forall>bk szk dk. Work_Blend_reaches env (Suc k) N b True 0 [] = Some (bk, szk, dk)
          \<longrightarrow> opaque_cover env k bk"
    using cover unfolding covered_at_def N_def by (auto split: option.splits)
  have kN: "k < N" "N \<le> length (baton_images b)" using k by (simp_all add: N_def)
  have N': "length (baton_images (below_replaced k lower b)) = N"
    using k lower(1) by (simp add: below_replaced_fields N_def)
  note main = Work_Blend_walk_below_replaced [OF lower(1) kN cov]
  have W': "Work_Blend_walk env N (below_replaced k lower b) True 0 []
      = lift_walk (below_replaced k lower) W"
    using main by (simp add: W_def)
  have dec: "\<forall>i\<in>set (walk_decoded W). k \<le> i" using main by (simp add: W_def)
  have self: "below_replaced k (take k (baton_images b)) b = b"
    by (simp add: below_replaced_def)
  have "length (take k (baton_images b)) = k" using k by simp
  from Work_Blend_walk_below_replaced [OF this kN cov]
  have fixW: "W = lift_walk (below_replaced k (take k (baton_images b))) W"
    by (simp add: self W_def)
  have out: "map_option Work_AfterBlend (Work_Blend env (below_replaced k lower b))
      = map_option Work_AfterBlend (Work_Blend env b)"
  proof (cases W)
    case (WORKER_END r d)
    then show ?thesis
      by (simp add: Work_Blend_def N' N_def [symmetric] W' W_def [symmetric]
          Work_AfterBlend_below_replaced)
  next
    case (Continue r a sz d)
    have r: "r = below_replaced k (take k (baton_images b)) r"
      using fixW by (simp add: Continue)
    have imgs: "baton_images r = take k (baton_images b) @ drop k (baton_images r)"
      using arg_cong [OF r, of baton_images] by (simp add: below_replaced_fields)
    have len: "k \<le> length (baton_images r)"
      using arg_cong [OF imgs, of length] k by simp
    have "take k (baton_images r) = take k (take k (baton_images b) @ drop k (baton_images r))"
      using imgs by simp
    then have tk: "take k (baton_images r) = take k (baton_images b)"
      using k by simp
    have none: "\<forall>img\<in>set (take k (baton_images r)). image_reader img = None"
      using fresh by (simp add: tk)
    show ?thesis
      by (simp add: Work_Blend_def N' N_def [symmetric] W' W_def [symmetric] Continue
          Work_Blend_blend_below_replaced [OF lower len none])
  qed
  have d: "Work_Blend_decoded env (below_replaced k lower b) = Work_Blend_decoded env b"
    by (cases W) (simp_all add: Work_Blend_decoded_def N' N_def [symmetric] W' W_def [symmetric])
  have d2: "Work_Blend_decoded env b = walk_decoded W"
    by (cases W) (simp_all add: Work_Blend_decoded_def N_def [symmetric] W_def [symmetric])
  show ?thesis using out d dec by (simp add: d2)
qed

theorem opaque_cover_hides_lower_layers_witness:
  "Suc 0 < length (baton_images job_two)
   \<and> length [new_Image\<lparr>image_data := [5, 5, 1]\<rparr>] = Suc 0
   \<and> covered_at toy_env (Suc 0) job_two
   \<and> map_option Work_AfterBlend
        (Work_Blend toy_env (below_replaced (Suc 0) [new_Image\<lparr>image_data := [5, 5, 1]\<rparr>] job_two))
      = map_option Work_AfterBlend (Work_Blend toy_env job_two)
   \<and> list_all (\<lambda>i. Suc 0 \<le> i) (Work_Blend_decoded toy_env job_two)"
proof -
  have i: "baton_images job_two ! Suc 0 = opaque_2x2" by (simp add: job_two_def)
  have k: "Suc 0 < length (baton_images job_two)" by (simp add: job_two_def)
  have l: "length [new_Image\<lparr>image_data := [5, 5, 1]\<rparr>] = Suc 0"
    "\<forall>img\<in>set [new_Image\<lparr>image_data := [5, 5, 1]\<rparr>]. image_reader img = None"
    by (simp_all add: new_Image_def)
  have f: "\<forall>img\<in>set (take (Suc 0) (baton_images job_two)). image_reader img = None"
    by (simp add: job_two_def new_Image_def)
  have r: "Work_Blend_reaches toy_env (Suc (Suc 0)) (length (baton_images job_two)) job_two True 0 []
      = Some (job_two, 0, [])"
    by (simp add: job_two_def)
  have d: "ImageReader_decode toy_env \<lparr>reader_width = 2, reader_height = 2, reader_alpha = False,
          reader_message = [], reader_warnings = [], reader_surface = []\<rparr>
      = (True, \<lparr>reader_width = 2, reader_height = 2, reader_alpha = False,
          reader_message = [], reader_warnings = [], reader_surface = replicate 4 0xFF0000FF\<rparr>)"
    by (simp add: toy_env_def toy_decode_def)
  have c: "covered_at toy_env (Suc 0) job_two"
    unfolding covered_at_def r
    by (simp add: opaque_cover_def Let_def i toy_layer d seed_canvas_def outside_viewport_def
        visibleWidth_def visibleHeight_def int32_def)
      (simp add: job_two_def new_BlendBaton_def opaque_2x2_def new_Image_def)
  show ?thesis
    using k l(1) c opaque_cover_hides_lower_layers [OF k l f c] by (simp add: list_all_iff)
qed
section \<open>The callback\<close>

text \<open>
  C8. A job that completes is to call the callback with \<open>(null, buffer, warnings)\<close>,
  the synchronous echo of a single buffer included. \<open>Work_AfterBlend\<close> does so, and
  calls it with the error alone when there is a message; the echo path of \<open>Blend\<close>
  (one buffer, no options, hence \<open>reencode\<close> false) calls it with the two arguments
  \<open>(null, buffer)\<close>.
\<close>

theorem echo_path_two_arguments:
  "Blend (b0\<lparr>baton_reencode := False\<rparr>) [Array [Buffer bytes], Function f]
     = TRY_CATCH_CALL (Function f) [Null, Buffer bytes]
   \<and> Work_AfterBlend (b\<lparr>baton_message := []\<rparr>)
     = TRY_CATCH_CALL (baton_callback b)
         [Null, Buffer (baton_stream b), Array (map String (baton_warnings b))]
   \<and> Work_AfterBlend (b\<lparr>baton_message := c # m\<rparr>)
     = TRY_CATCH_CALL (baton_callback b) [Error (c # m)]"
  by (simp add: Blend_def Blend_layers_def IsArray_def IsFunction_def Array_elements_def
      Buffer_HasInstance_def Work_AfterBlend_def Let_def)

text \<open>
  C9. A call with PNG output and quality 1 or above 256 is to throw at once. With
  the format \<open>png\<close> given it does; with no format given the format of the baton is
  left as constructed (PNG), the check is not made, and the job is queued with
  quality 1, or 1000.
\<close>

theorem default_png_quality_unchecked:
  "(case Blend b0 [Array [Buffer b1, Buffer b2], Object [(''quality'', Number 1)], Function f] of
      QUEUE_WORK baton \<Rightarrow> baton_quality baton = 1 \<and> baton_format baton = baton_format b0
    | _ \<Rightarrow> False)
   \<and> (case Blend b0
             [Array [Buffer b1, Buffer b2], Object [(''quality'', Number 1000)], Function f] of
        QUEUE_WORK baton \<Rightarrow> baton_quality baton = 1000 \<and> baton_format baton = baton_format b0
      | _ \<Rightarrow> False)
   \<and> Blend b0
        [Array [Buffer b1, Buffer b2], Object [(''format'', String ''png''), (''quality'', Number 1)],
         Function f]
      = TYPE_EXCEPTION ''PNG images must be quantized between 2 and 256 colors.''"
  by (simp add: Blend_def Blend_layers_def Blend_options_def Blend_format_def Blend_tint_def
      Blend_image_def IsArray_def IsFunction_def IsObject_def IsString_def Array_elements_def
      Buffer_HasInstance_def Buffer_Data_def Get_def Has_def Int32Value_def BooleanValue_def
      AsciiValue_def trunc_def int32_def new_Image_def Let_def
      Z_BEST_COMPRESSION_def Z_DEFAULT_COMPRESSION_def MZ_UBER_COMPRESSION_def)

end
